theory Spec2Isabelle
  imports Main
begin

section \<open>Python values and exceptions\<close>

text \<open>
  The program is \<open>app.py\<close>, a console manager of one CSV file.  Its functions are
  modelled as functions on an explicit state, the files and the console; what the user
  types and which system calls fail are arguments.

  A Python \<open>str\<close> is a sequence of code points; the model covers the code points
  below 256, one \<open>char\<close> each.  Files hold text: the UTF-8 layer between the text
  and the bytes on disk is not modelled.  Integers are unbounded, as Python's are; the
  interpreter's limit on the digits of a conversion is not modelled.  Directories, other
  processes and the drawing of tables are not modelled either.
\<close>

datatype py_error =
  OSError | CsvError | ValueError | AttributeError | TypeError | KeyError

text \<open>
  The values a dictionary of this program can hold: a string, \<open>None\<close>, the list of
  surplus cells that \<open>csv.DictReader\<close> stores under its \<open>restkey\<close>, and any other
  object (a JSON number, boolean, array or object), of which the program only ever
  observes the truth value and the text \<open>str()\<close> gives.
\<close>

datatype pyval = PStr string | PNone | PRest "string list" | POther bool string

text \<open>A dictionary key is a string or \<open>None\<close> (the default \<open>restkey\<close>).\<close>

type_synonym pykey = "string option"

text \<open>A \<open>dict\<close> keeps its keys in insertion order and holds each key once.\<close>

type_synonym pydict = "(pykey \<times> pyval) list"

definition FIELDNAMES :: "string list" where
  "FIELDNAMES = [''id'', ''nama kapal'', ''bendera'', ''agen'', ''gt'', ''muatan'', ''tujuan'']"

text \<open>\<open>d[k] = v\<close>: an existing key keeps its position, a new key goes last.\<close>

fun dict_set :: "pydict \<Rightarrow> pykey \<Rightarrow> pyval \<Rightarrow> pydict" where
  "dict_set [] k v = [(k, v)]"
| "dict_set ((k', v') # d) k v =
     (if k' = k then (k, v) # d else (k', v') # dict_set d k v)"

text \<open>\<open>d[k]\<close> raises \<open>KeyError\<close> on a missing key.\<close>

definition dict_item :: "pydict \<Rightarrow> pykey \<Rightarrow> py_error + pyval" where
  "dict_item d k = (case map_of d k of None \<Rightarrow> Inl KeyError | Some v \<Rightarrow> Inr v)"

text \<open>\<open>d.get(k, default)\<close>.\<close>

definition dict_get :: "pydict \<Rightarrow> pykey \<Rightarrow> pyval \<Rightarrow> pyval" where
  "dict_get d k dflt = (case map_of d k of None \<Rightarrow> dflt | Some v \<Rightarrow> v)"

text \<open>Truth value of an object, as \<open>if x\<close> and \<open>not x\<close> test it.\<close>

fun truthy :: "pyval \<Rightarrow> bool" where
  "truthy (PStr s) = (s \<noteq> [])"
| "truthy PNone = False"
| "truthy (PRest xs) = (xs \<noteq> [])"
| "truthy (POther b _) = b"

section \<open>Id assignment\<close>

text \<open>
  \<open>str.isdigit()\<close>: the string is not empty and every character has the Unicode
  property Digit.  Below 256 these are the ten decimal digits and the superscripts
  two, three and one (code points B2, B3, B9).
\<close>

definition is_decimal_char :: "char \<Rightarrow> bool" where
  "is_decimal_char c = (48 \<le> (of_char c :: nat) \<and> (of_char c :: nat) \<le> 57)"

definition is_digit_char :: "char \<Rightarrow> bool" where
  "is_digit_char c = (is_decimal_char c \<or> c = CHR 0xB2 \<or> c = CHR 0xB3 \<or> c = CHR 0xB9)"

definition isdigit :: "string \<Rightarrow> bool" where
  "isdigit s = (s \<noteq> [] \<and> list_all is_digit_char s)"

text \<open>
  \<open>int(s)\<close>, written out for the strings the program passes to it, those with
  \<open>s.isdigit()\<close>: the decimal value when every character is a decimal digit,
  \<open>ValueError\<close> otherwise (a superscript digit is no literal).
\<close>

definition digit_val :: "char \<Rightarrow> int" where
  "digit_val c = int (of_char c) - 48"

definition py_int :: "string \<Rightarrow> py_error + int" where
  "py_int s =
     (if s \<noteq> [] \<and> list_all is_decimal_char s
      then Inr (foldl (\<lambda>n c. 10 * n + digit_val c) 0 s)
      else Inl ValueError)"

text \<open>\<open>str(n)\<close> of an integer: decimal digits, a minus sign when negative.\<close>

fun decimal :: "nat \<Rightarrow> string" where
  "decimal n =
     (if n < 10 then [char_of (48 + n)]
      else decimal (n div 10) @ [char_of (48 + n mod 10)])"

definition py_str :: "int \<Rightarrow> string" where
  "py_str i = (if i < 0 then CHR ''-'' # decimal (nat (- i)) else decimal (nat i))"

text \<open>
  The list comprehension \<open>[int(r["id"]) for r in recs if r["id"].isdigit()]\<close>:
  records are visited in order and the first exception ends the scan.
  \<open>r["id"]\<close> raises \<open>KeyError\<close> when the key is missing, and \<open>.isdigit\<close> raises
  \<open>AttributeError\<close> on a value that is not a string.
\<close>

fun existing_ids :: "pydict list \<Rightarrow> py_error + int list" where
  "existing_ids [] = Inr []"
| "existing_ids (r # recs) =
     (case dict_item r (Some ''id'') of
        Inl e \<Rightarrow> Inl e
      | Inr (PStr s) \<Rightarrow>
          (if isdigit s
           then (case py_int s of
                   Inl e \<Rightarrow> Inl e
                 | Inr n \<Rightarrow> (case existing_ids recs of Inl e \<Rightarrow> Inl e | Inr ns \<Rightarrow> Inr (n # ns)))
           else existing_ids recs)
      | Inr _ \<Rightarrow> Inl AttributeError)"

text \<open>\<open>max(xs, default=0)\<close>.\<close>

definition max_default :: "int list \<Rightarrow> int" where
  "max_default xs = (if xs = [] then 0 else Max (set xs))"

text \<open>\<open>next_id = str(max(existing_ids, default=0) + 1)\<close>.\<close>

definition next_id :: "pydict list \<Rightarrow> py_error + string" where
  "next_id recs =
     (case existing_ids recs of
        Inl e \<Rightarrow> Inl e
      | Inr ns \<Rightarrow> Inr (py_str (max_default ns + 1)))"

section \<open>The csv module: writer\<close>

text \<open>
  \<open>csv.DictWriter\<close> and \<open>csv.DictReader\<close> are used with the default dialect
  (\<open>excel\<close>): delimiter comma, quote character \<open>"\<close>, doubled quotes, minimal
  quoting, line terminator CR LF, no escape character, not strict.  The model follows
  CPython 3.11 and later, where a NUL character is an ordinary character.
\<close>

abbreviation LF :: char where "LF \<equiv> CHR 0x0A"
abbreviation CR :: char where "CR \<equiv> CHR 0x0D"
abbreviation DQ :: char where "DQ \<equiv> CHR 0x22"
abbreviation COMMA :: char where "COMMA \<equiv> CHR 0x2C"

definition lineterminator :: string where
  "lineterminator = [CR, LF]"

text \<open>\<open>repr\<close> of a string and \<open>str\<close> of a list of strings.\<close>

definition hex_digit :: "nat \<Rightarrow> char" where
  "hex_digit n = (if n < 10 then char_of (48 + n) else char_of (87 + n))"

definition printable :: "char \<Rightarrow> bool" where
  "printable c =
     (let n = (of_char c :: nat) in \<not> (n < 32 \<or> (127 \<le> n \<and> n \<le> 160) \<or> n = 173))"

definition repr_char :: "char \<Rightarrow> char \<Rightarrow> string" where
  "repr_char q c =
     (if c = q \<or> c = CHR 0x5C then [CHR 0x5C, c]
      else if c = CHR 0x09 then [CHR 0x5C, CHR ''t'']
      else if c = LF then [CHR 0x5C, CHR ''n'']
      else if c = CR then [CHR 0x5C, CHR ''r'']
      else if printable c then [c]
      else [CHR 0x5C, CHR ''x'', hex_digit (of_char c div 16), hex_digit (of_char c mod 16)])"

definition repr_str :: "string \<Rightarrow> string" where
  "repr_str s =
     (let q = (if CHR 0x27 \<in> set s \<and> DQ \<notin> set s then DQ else CHR 0x27)
      in q # concat (map (repr_char q) s) @ [q])"

fun join :: "string \<Rightarrow> string list \<Rightarrow> string" where
  "join sep [] = []"
| "join sep [x] = x"
| "join sep (x # y # xs) = x @ sep @ join sep (y # xs)"

definition repr_list :: "string list \<Rightarrow> string" where
  "repr_list xs = ''['' @ join '', '' (map repr_str xs) @ '']''"

text \<open>
  The text the writer makes of a cell: a string as it is, \<open>None\<close> as the empty
  string, anything else through \<open>str()\<close>.
\<close>

fun cell_text :: "pyval \<Rightarrow> string" where
  "cell_text (PStr s) = s"
| "cell_text PNone = []"
| "cell_text (PRest xs) = repr_list xs"
| "cell_text (POther _ t) = t"

text \<open>
  A cell is quoted when it holds the delimiter, the quote character or a character
  of the line terminator; inside the quotes a quote character is doubled.
\<close>

definition special :: "char \<Rightarrow> bool" where
  "special c = (c = COMMA \<or> c = DQ \<or> c = CR \<or> c = LF)"

fun double_quotes :: "string \<Rightarrow> string" where
  "double_quotes [] = []"
| "double_quotes (c # cs) = (if c = DQ then DQ # DQ # double_quotes cs else c # double_quotes cs)"

definition join_append :: "string \<Rightarrow> string" where
  "join_append s = (if list_ex special s then DQ # double_quotes s @ [DQ] else s)"

text \<open>
  \<open>writer.writerow\<close>: the cells joined by commas; a record that came out empty
  though it has a cell (one empty cell) is written as two quote characters.
\<close>

definition writerow :: "string list \<Rightarrow> string" where
  "writerow cells =
     (let rec = join [COMMA] (map join_append cells)
      in (if cells \<noteq> [] \<and> rec = [] then [DQ, DQ] else rec) @ lineterminator)"

text \<open>
  \<open>DictWriter._dict_to_list\<close> with \<open>extrasaction="raise"\<close> and
  \<open>restval=""\<close>: a key outside \<open>fieldnames\<close> raises \<open>ValueError\<close>;
  a missing key gives the empty string.
\<close>

definition dict_to_list :: "string list \<Rightarrow> pydict \<Rightarrow> py_error + string list" where
  "dict_to_list fieldnames rowdict =
     (if \<exists>k \<in> set (map fst rowdict). k \<notin> Some ` set fieldnames then Inl ValueError
      else Inr (map (\<lambda>key. cell_text (dict_get rowdict (Some key) (PStr []))) fieldnames))"

definition dict_writerow :: "string list \<Rightarrow> pydict \<Rightarrow> py_error + string" where
  "dict_writerow fieldnames rowdict =
     (case dict_to_list fieldnames rowdict of Inl e \<Rightarrow> Inl e | Inr cells \<Rightarrow> Inr (writerow cells))"

definition writeheader :: "string list \<Rightarrow> string" where
  "writeheader fieldnames = writerow fieldnames"

text \<open>
  \<open>DictWriter.writerows\<close>: the rows are converted and written one by one, so the
  rows before a failing one have been written when the exception is raised.
  The result is the text written and the exception, if any.
\<close>

fun dict_writerows :: "string list \<Rightarrow> pydict list \<Rightarrow> string \<times> py_error option" where
  "dict_writerows fieldnames [] = ([], None)"
| "dict_writerows fieldnames (r # rs) =
     (case dict_writerow fieldnames r of
        Inl e \<Rightarrow> ([], Some e)
      | Inr t \<Rightarrow> (let (ts, e) = dict_writerows fieldnames rs in (t @ ts, e)))"

section \<open>The csv module: reader\<close>

text \<open>
  A text file opened with \<open>newline=""\<close> is iterated line by line; a line ends
  after LF, after CR LF and after a CR that no LF follows, and keeps its ending.
\<close>

fun splitlines :: "string \<Rightarrow> string \<Rightarrow> string list" where
  "splitlines cur [] = (if cur = [] then [] else [cur])"
| "splitlines cur [c] = [cur @ [c]]"
| "splitlines cur (c # d # cs) =
     (if c = LF then (cur @ [c]) # splitlines [] (d # cs)
      else if c = CR then
        (if d = LF then (cur @ [c, d]) # splitlines [] cs
         else (cur @ [c]) # splitlines [] (d # cs))
      else splitlines (cur @ [c]) (d # cs))"

definition file_lines :: "string \<Rightarrow> string list" where
  "file_lines text = splitlines [] text"

text \<open>
  The reader's state machine (\<open>parse_process_char\<close> of \<open>_csv.c\<close>).  The states
  that only an escape character reaches are left out, the dialect has none.
\<close>

datatype parse_state =
  START_RECORD | START_FIELD | IN_FIELD | IN_QUOTED_FIELD | QUOTE_IN_QUOTED_FIELD | EAT_CRNL

record reader =
  pstate :: parse_state
  pfield :: string
  pfields :: "string list"

text \<open>\<open>csv.field_size_limit()\<close>, which the program leaves at its default.\<close>

definition field_limit :: nat where
  "field_limit = 131072"

definition parse_reset :: reader where
  "parse_reset = \<lparr>pstate = START_RECORD, pfield = [], pfields = []\<rparr>"

definition parse_save_field :: "reader \<Rightarrow> reader" where
  "parse_save_field p = p\<lparr>pfields := pfields p @ [pfield p], pfield := []\<rparr>"

definition parse_add_char :: "reader \<Rightarrow> char \<Rightarrow> py_error + reader" where
  "parse_add_char p c =
     (if length (pfield p) \<ge> field_limit then Inl CsvError
      else Inr (p\<lparr>pfield := pfield p @ [c]\<rparr>))"

text \<open>After the characters of a line the reader is given the end-of-line mark, here \<open>None\<close>.\<close>

definition is_newline :: "char option \<Rightarrow> bool" where
  "is_newline c = (c = Some LF \<or> c = Some CR \<or> c = None)"

definition after_newline :: "char option \<Rightarrow> parse_state" where
  "after_newline c = (if c = None then START_RECORD else EAT_CRNL)"

definition start_field :: "reader \<Rightarrow> char option \<Rightarrow> py_error + reader" where
  "start_field p c =
     (if is_newline c then Inr ((parse_save_field p)\<lparr>pstate := after_newline c\<rparr>)
      else if c = Some DQ then Inr (p\<lparr>pstate := IN_QUOTED_FIELD\<rparr>)
      else if c = Some COMMA then Inr (parse_save_field p)
      else (case parse_add_char p (the c) of
              Inl e \<Rightarrow> Inl e
            | Inr p' \<Rightarrow> Inr (p'\<lparr>pstate := IN_FIELD\<rparr>)))"

definition parse_process_char :: "reader \<Rightarrow> char option \<Rightarrow> py_error + reader" where
  "parse_process_char p c =
     (case pstate p of
        START_RECORD \<Rightarrow>
          (if c = None then Inr p
           else if c = Some LF \<or> c = Some CR then Inr (p\<lparr>pstate := EAT_CRNL\<rparr>)
           else start_field (p\<lparr>pstate := START_FIELD\<rparr>) c)
      | START_FIELD \<Rightarrow> start_field p c
      | IN_FIELD \<Rightarrow>
          (if is_newline c then Inr ((parse_save_field p)\<lparr>pstate := after_newline c\<rparr>)
           else if c = Some COMMA then Inr ((parse_save_field p)\<lparr>pstate := START_FIELD\<rparr>)
           else parse_add_char p (the c))
      | IN_QUOTED_FIELD \<Rightarrow>
          (if c = None then Inr p
           else if c = Some DQ then Inr (p\<lparr>pstate := QUOTE_IN_QUOTED_FIELD\<rparr>)
           else parse_add_char p (the c))
      | QUOTE_IN_QUOTED_FIELD \<Rightarrow>
          (if c = Some DQ then
             (case parse_add_char p DQ of
                Inl e \<Rightarrow> Inl e
              | Inr p' \<Rightarrow> Inr (p'\<lparr>pstate := IN_QUOTED_FIELD\<rparr>))
           else if c = Some COMMA then Inr ((parse_save_field p)\<lparr>pstate := START_FIELD\<rparr>)
           else if is_newline c then Inr ((parse_save_field p)\<lparr>pstate := after_newline c\<rparr>)
           else (case parse_add_char p (the c) of
                   Inl e \<Rightarrow> Inl e
                 | Inr p' \<Rightarrow> Inr (p'\<lparr>pstate := IN_FIELD\<rparr>)))
      | EAT_CRNL \<Rightarrow>
          (if c = Some LF \<or> c = Some CR then Inr p
           else if c = None then Inr (p\<lparr>pstate := START_RECORD\<rparr>)
           else Inl CsvError))"

fun feed_chars :: "reader \<Rightarrow> string \<Rightarrow> py_error + reader" where
  "feed_chars p [] = Inr p"
| "feed_chars p (c # cs) =
     (case parse_process_char p (Some c) of Inl e \<Rightarrow> Inl e | Inr p' \<Rightarrow> feed_chars p' cs)"

definition feed_line :: "reader \<Rightarrow> string \<Rightarrow> py_error + reader" where
  "feed_line p l =
     (case feed_chars p l of Inl e \<Rightarrow> Inl e | Inr p' \<Rightarrow> parse_process_char p' None)"

text \<open>
  The rows the reader yields from the lines of a file, in order, up to the first
  \<open>csv.Error\<close>, and that error if there is one (\<open>Reader_iternext\<close> called until
  it stops).  A record is complete when a line leaves the machine in
  \<open>START_RECORD\<close>; at the end of the input a pending cell is saved and yielded.
\<close>

fun reader_rows :: "reader \<Rightarrow> string list \<Rightarrow> string list list \<times> py_error option" where
  "reader_rows p [] =
     (if pfield p \<noteq> [] \<or> pstate p = IN_QUOTED_FIELD
      then ([pfields (parse_save_field p)], None) else ([], None))"
| "reader_rows p (l # ls) =
     (case feed_line p l of
        Inl e \<Rightarrow> ([], Some e)
      | Inr p' \<Rightarrow>
          if pstate p' = START_RECORD
          then (let (rows, e) = reader_rows parse_reset ls in (pfields p' # rows, e))
          else reader_rows p' ls)"

definition csv_reader :: "string \<Rightarrow> string list list \<times> py_error option" where
  "csv_reader text = reader_rows parse_reset (file_lines text)"

text \<open>
  \<open>DictReader.__next__\<close> builds the dictionary of a row: \<open>dict(zip(fieldnames, row))\<close>,
  surplus cells under the key \<open>None\<close>, missing cells as \<open>None\<close>.
\<close>

definition make_dict :: "string list \<Rightarrow> string list \<Rightarrow> pydict" where
  "make_dict fieldnames row =
     (let d = foldl (\<lambda>d (k, v). dict_set d (Some k) (PStr v)) [] (zip fieldnames row);
          lf = length fieldnames; lr = length row
      in if lf < lr then dict_set d None (PRest (drop lf row))
         else if lf > lr then foldl (\<lambda>d k. dict_set d (Some k) PNone) d (drop lr fieldnames)
         else d)"

text \<open>\<open>list(reader)\<close> on a \<open>DictReader\<close>: empty rows are skipped.\<close>

definition dict_rows :: "string list \<Rightarrow> string list list \<Rightarrow> pydict list" where
  "dict_rows fieldnames rows = map (make_dict fieldnames) (filter (\<lambda>row. row \<noteq> []) rows)"

section \<open>Files, console and failures\<close>

type_synonym path = string

text \<open>What the program prints, one constructor for each of its messages.\<close>

datatype message =
    Initialized path | ErrorInitializing py_error
  | HeaderMismatch | ErrorReading py_error
  | LockFailed | ErrorWriting py_error | ErrorAppending py_error
  | ShowTable "pydict list" | InvalidInput string
  | Added string | IdNotFound string | Updated string | Deleted string
  | BackupCreated path | BackupFailed py_error
  | Exported nat path | ExportFailed py_error
  | FileNotFound path | InvalidJSON | Imported nat | Skipped string
  | AllErased

text \<open>
  The state the program acts on: the files by path with their text, the paths
  under an exclusive \<open>flock\<close>, and what was printed so far.
\<close>

record world =
  files :: "path \<Rightarrow> string option"
  locks :: "path list"
  console :: "message list"

definition say :: "message \<Rightarrow> world \<Rightarrow> world" where
  "say m w = w\<lparr>console := console w @ [m]\<rparr>"

definition put_file :: "path \<Rightarrow> string \<Rightarrow> world \<Rightarrow> world" where
  "put_file p text w = w\<lparr>files := (files w)(p \<mapsto> text)\<rparr>"

definition unlink :: "path \<Rightarrow> world \<Rightarrow> world" where
  "unlink p w = w\<lparr>files := (files w)(p := None)\<rparr>"

text \<open>
  What the program takes from its surroundings: the home directory, the directory
  \<open>tempfile.gettempdir()\<close> answers, the random names \<open>mkstemp\<close> tries in turn,
  the filesystem (device) each path lies on, and the two functions of the \<open>json\<close>
  module, which are not modelled further.
\<close>

datatype element = EDict pydict | ENotDict

datatype loaded =
  LArray "element list" | LObject "string list" | LString string | LScalar

record env =
  home :: path
  tempdir :: path
  temp_names :: "string list"
  device :: "path \<Rightarrow> nat"
  json_loads :: "string \<Rightarrow> loaded option"
  json_dumps :: "pydict list \<Rightarrow> string"

text \<open>
  The system calls that may fail with \<open>OSError\<close> during one operation.  A write
  that fails does so after a number of characters have reached the file.
\<close>

record faults =
  f_mkstemp :: bool
  f_open :: bool
  f_flock :: bool
  f_write :: "nat option"
  f_unlock :: bool
  f_rename :: bool
  f_dst_open :: bool
  f_dst_write :: "nat option"
  f_dst_meta :: bool
  f_unlink :: bool

definition no_faults :: faults where
  "no_faults = \<lparr>f_mkstemp = False, f_open = False, f_flock = False, f_write = None,
     f_unlock = False, f_rename = False, f_dst_open = False, f_dst_write = None,
     f_dst_meta = False, f_unlink = False\<rparr>"

section \<open>CsvRepository\<close>

record csv_repository =
  path :: path
  fieldnames :: "string list"

text \<open>
  \<open>DictReader.fieldnames\<close>: the first row the reader yields, \<open>None\<close> when it
  yields nothing; a \<open>csv.Error\<close> in that row is raised.
\<close>

definition reader_fieldnames :: "string \<Rightarrow> py_error + string list option" where
  "reader_fieldnames text =
     (case csv_reader text of
        ([], Some e) \<Rightarrow> Inl e
      | ([], None) \<Rightarrow> Inr None
      | (header # rows, err) \<Rightarrow> Inr (Some header))"

text \<open>
  \<open>read_all\<close>: no file gives the empty list; so does a header that is not the
  schema, with a message; a \<open>csv.Error\<close> or \<open>OSError\<close> is printed and gives the
  empty list.  The rows are read only after the header has matched.
\<close>

definition read_all :: "faults \<Rightarrow> csv_repository \<Rightarrow> world \<Rightarrow> pydict list \<times> world" where
  "read_all fl repo w =
     (case files w (path repo) of
        None \<Rightarrow> ([], w)
      | Some text \<Rightarrow>
          if f_open fl then ([], say (ErrorReading OSError) w)
          else (case reader_fieldnames text of
                  Inl e \<Rightarrow> ([], say (ErrorReading e) w)
                | Inr header \<Rightarrow>
                    if header \<noteq> Some (fieldnames repo) then ([], say HeaderMismatch w)
                    else (case csv_reader text of
                            (rows, Some e) \<Rightarrow> ([], say (ErrorReading e) w)
                          | (rows, None) \<Rightarrow> (dict_rows (fieldnames repo) (tl rows), w))))"

text \<open>
  \<open>tempfile.mkstemp(prefix="csvmgr_", suffix=".tmp")\<close>: no \<open>dir\<close> is given, so
  the file is made in \<open>gettempdir()\<close>, under the first candidate name that is free.
\<close>

definition temp_path :: "env \<Rightarrow> string \<Rightarrow> path" where
  "temp_path env n = tempdir env @ ''/csvmgr_'' @ n @ ''.tmp''"

definition mkstemp :: "env \<Rightarrow> world \<Rightarrow> path option" where
  "mkstemp env w = find (\<lambda>p. files w p = None) (map (temp_path env) (temp_names env))"

text \<open>
  \<open>shutil.move(src, dst)\<close> for a regular file: \<open>os.rename\<close>, which replaces
  \<open>dst\<close> in one step but fails across filesystems; on its \<open>OSError\<close> the file is
  copied (\<open>copy2\<close>: \<open>dst\<close> is opened for writing, which empties it, then filled,
  then given the metadata) and \<open>src\<close> is unlinked.  The result is the exception, if
  any, and the successive states the call went through.
\<close>

definition shutil_copy ::
  "faults \<Rightarrow> path \<Rightarrow> path \<Rightarrow> world \<Rightarrow> py_error option \<times> world list" where
  "shutil_copy fl src dst w =
     (case files w src of
        None \<Rightarrow> (Some OSError, [])
      | Some text \<Rightarrow>
          if f_dst_open fl then (Some OSError, [])
          else
            let w1 = put_file dst [] w in
            (case f_dst_write fl of
               Some n \<Rightarrow> (Some OSError, [w1, put_file dst (take n text) w1])
             | None \<Rightarrow>
                 let w2 = put_file dst text w1 in
                 if f_dst_meta fl then (Some OSError, [w1, w2]) else (None, [w1, w2])))"

definition shutil_move ::
  "env \<Rightarrow> faults \<Rightarrow> path \<Rightarrow> path \<Rightarrow> world \<Rightarrow> py_error option \<times> world list" where
  "shutil_move env fl src dst w =
     (case files w src of
        None \<Rightarrow> (Some OSError, [])
      | Some text \<Rightarrow>
          if device env src = device env dst \<and> \<not> f_rename fl
          then (None, [unlink src (put_file dst text w)])
          else (case shutil_copy fl src dst w of
                  (Some e, tr) \<Rightarrow> (Some e, tr)
                | (None, tr) \<Rightarrow>
                    if f_unlink fl then (Some OSError, tr)
                    else (None, tr @ [unlink src (last (w # tr))])))"

text \<open>Leaving the \<open>with\<close> block closes the file: the buffered text reaches it and its lock goes.\<close>

definition close_file :: "path \<Rightarrow> string \<Rightarrow> world \<Rightarrow> world" where
  "close_file p text w = (put_file p text w)\<lparr>locks := removeAll p (locks w)\<rparr>"

definition acquire_lock :: "faults \<Rightarrow> path \<Rightarrow> world \<Rightarrow> world" where
  "acquire_lock fl p w = (if f_flock fl then say LockFailed w else w\<lparr>locks := p # locks w\<rparr>)"

text \<open>
  The handler of \<open>write_all\<close>, entered on \<open>OSError\<close> and \<open>csv.Error\<close> only:
  the message, then the temporary file is unlinked if it exists.
\<close>

definition write_all_except :: "py_error \<Rightarrow> path \<Rightarrow> world \<Rightarrow> world list" where
  "write_all_except e tp w =
     (let w' = say (ErrorWriting e) w
      in if files w' tp \<noteq> None then [w', unlink tp w'] else [w'])"

text \<open>
  \<open>write_all\<close>, with the states it goes through.  \<open>mkstemp\<close> stands before the
  \<open>try\<close>, so its \<open>OSError\<close> leaves the function; so does the \<open>ValueError\<close> of the
  writer, which the handler does not name.
\<close>

definition write_all_trace ::
  "env \<Rightarrow> faults \<Rightarrow> csv_repository \<Rightarrow> pydict list \<Rightarrow> world \<Rightarrow> py_error option \<times> world list" where
  "write_all_trace env fl repo records w =
     (case (if f_mkstemp fl then None else mkstemp env w) of
        None \<Rightarrow> (Some OSError, [])
      | Some tp \<Rightarrow>
          let w0 = put_file tp [] w;
              w1 = acquire_lock fl tp w0;
              (rows, exc) = dict_writerows (fieldnames repo) records;
              text = writeheader (fieldnames repo) @ rows
          in (case exc of
                Some e \<Rightarrow> (Some e, [w0, w1, close_file tp text w1])
              | None \<Rightarrow>
                 (case f_write fl of
                    Some n \<Rightarrow>
                      (let w2 = close_file tp (take n text) w1
                       in (None, [w0, w1, w2] @ write_all_except OSError tp w2))
                  | None \<Rightarrow>
                      let w2 = close_file tp text w1 in
                      if f_unlock fl
                      then (None, [w0, w1, w2] @ write_all_except OSError tp w2)
                      else (case shutil_move env fl tp (path repo) w2 of
                              (None, tr) \<Rightarrow> (None, [w0, w1, w2] @ tr)
                            | (Some e, tr) \<Rightarrow>
                                (None, [w0, w1, w2] @ tr
                                   @ write_all_except e tp (last (w2 # tr)))))))"

definition write_all ::
  "env \<Rightarrow> faults \<Rightarrow> csv_repository \<Rightarrow> pydict list \<Rightarrow> world \<Rightarrow> py_error option \<times> world" where
  "write_all env fl repo records w =
     (let (exc, tr) = write_all_trace env fl repo records w in (exc, last (w # tr)))"

text \<open>
  \<open>append\<close>: the file is opened for appending (and made if missing), one row is
  written.  \<open>OSError\<close> is printed; the writer's \<open>ValueError\<close> leaves the function.
\<close>

definition append ::
  "faults \<Rightarrow> csv_repository \<Rightarrow> pydict \<Rightarrow> world \<Rightarrow> py_error option \<times> world" where
  "append fl repo record w =
     (if f_open fl then (None, say (ErrorAppending OSError) w)
      else
        let old = (case files w (path repo) of None \<Rightarrow> [] | Some t \<Rightarrow> t);
            w1 = (if f_flock fl then say LockFailed w else w)
        in (case dict_writerow (fieldnames repo) record of
              Inl e \<Rightarrow> (Some e, put_file (path repo) old w1)
            | Inr row \<Rightarrow>
               (case f_write fl of
                  Some n \<Rightarrow>
                    (None, say (ErrorAppending OSError) (put_file (path repo) (old @ take n row) w1))
                | None \<Rightarrow>
                    let w2 = put_file (path repo) (old @ row) w1 in
                    if f_unlock fl then (None, say (ErrorAppending OSError) w2) else (None, w2))))"

text \<open>\<open>initialize\<close>: a missing file is made, holding the header row.\<close>

definition initialize :: "faults \<Rightarrow> csv_repository \<Rightarrow> world \<Rightarrow> world" where
  "initialize fl repo w =
     (if files w (path repo) \<noteq> None then w
      else if f_open fl then say (ErrorInitializing OSError) w
      else (case f_write fl of
              Some n \<Rightarrow>
                say (ErrorInitializing OSError)
                  (put_file (path repo) (take n (writeheader (fieldnames repo))) w)
            | None \<Rightarrow>
                say (Initialized (path repo))
                  (put_file (path repo) (writeheader (fieldnames repo)) w)))"

section \<open>The menu actions\<close>

text \<open>
  What the user types at a prompt is an argument of the action.  The drawing of the
  table by \<open>rich\<close> is not modelled beyond the cells it reads.
\<close>

definition BASE_DIR :: "env \<Rightarrow> path" where
  "BASE_DIR env = home env @ ''/Documents/CSVManager''"

definition CSV_FILE :: "env \<Rightarrow> path" where
  "CSV_FILE env = BASE_DIR env @ ''/data.csv''"

definition BACKUP_DIR :: "env \<Rightarrow> path" where
  "BACKUP_DIR env = BASE_DIR env @ ''/backups''"

text \<open>\<open>display_table\<close> reads \<open>r[field]\<close> for every field of \<open>FIELDNAMES\<close>.\<close>

definition display_table :: "pydict list \<Rightarrow> world \<Rightarrow> py_error option \<times> world" where
  "display_table records w =
     (if \<exists>r \<in> set records. \<exists>f \<in> set FIELDNAMES. map_of r (Some f) = None
      then (Some KeyError, w) else (None, say (ShowTable records) w))"

text \<open>\<open>str.strip()\<close>: whitespace is taken off both ends.\<close>

definition is_space :: "char \<Rightarrow> bool" where
  "is_space c =
     (let n = (of_char c :: nat)
      in (9 \<le> n \<and> n \<le> 13) \<or> (28 \<le> n \<and> n \<le> 32) \<or> n = 133 \<or> n = 160)"

definition strip :: "string \<Rightarrow> string" where
  "strip s = rev (dropWhile is_space (rev (dropWhile is_space s)))"

text \<open>
  \<open>get_new_record_fields\<close>: every field but \<open>id\<close> is asked for; an answer that is
  missing or blank ends the function with \<open>None\<close>.
\<close>

fun ask_fields ::
  "(string \<Rightarrow> string option) \<Rightarrow> string list \<Rightarrow> pydict \<Rightarrow> world \<Rightarrow> pydict option \<times> world" where
  "ask_fields answer [] rec w = (Some rec, w)"
| "ask_fields answer (f # fs) rec w =
     (if f = ''id'' then ask_fields answer fs rec w
      else (case answer f of
              None \<Rightarrow> (None, say (InvalidInput f) w)
            | Some a \<Rightarrow>
                if strip a = [] then (None, say (InvalidInput f) w)
                else ask_fields answer fs (dict_set rec (Some f) (PStr (strip a))) w))"

definition get_new_record_fields ::
  "(string \<Rightarrow> string option) \<Rightarrow> world \<Rightarrow> pydict option \<times> world" where
  "get_new_record_fields answer w = ask_fields answer FIELDNAMES [] w"

definition add_record_flow ::
  "faults \<Rightarrow> csv_repository \<Rightarrow> (string \<Rightarrow> string option) \<Rightarrow> world \<Rightarrow> py_error option \<times> world" where
  "add_record_flow fl repo answer w =
     (let (recs, w1) = read_all fl repo w in
      case next_id recs of
        Inl e \<Rightarrow> (Some e, w1)
      | Inr nid \<Rightarrow>
          (case get_new_record_fields answer w1 of
             (None, w2) \<Rightarrow> (None, w2)
           | (Some flds, w2) \<Rightarrow>
               if flds = [] then (None, w2)
               else
                 let new_record = foldl (\<lambda>d (k, v). dict_set d k v) [(Some ''id'', PStr nid)] flds
                 in (case append fl repo new_record w2 of
                       (Some e, w3) \<Rightarrow> (Some e, w3)
                     | (None, w3) \<Rightarrow> (None, say (Added nid) w3))))"

text \<open>
  \<open>next((r for r in recs if r["id"] == rid), None)\<close>: the position of the first
  record with that id.
\<close>

fun find_record :: "string \<Rightarrow> pydict list \<Rightarrow> py_error + nat option" where
  "find_record rid [] = Inr None"
| "find_record rid (r # rs) =
     (case dict_item r (Some ''id'') of
        Inl e \<Rightarrow> Inl e
      | Inr v \<Rightarrow>
          if v = PStr rid then Inr (Some 0)
          else (case find_record rid rs of
                  Inl e \<Rightarrow> Inl e
                | Inr None \<Rightarrow> Inr None
                | Inr (Some i) \<Rightarrow> Inr (Some (Suc i))))"

text \<open>
  \<open>update_record\<close>: the record found is an element of \<open>recs\<close>, so the assignment
  \<open>record[field] = new_value\<close> changes \<open>recs\<close> at that position.  The menu of fields
  answers a field other than \<open>id\<close>, or \<open>None\<close> when the user cancels.
\<close>

definition update_record ::
  "env \<Rightarrow> faults \<Rightarrow> csv_repository \<Rightarrow> string \<Rightarrow> pykey \<Rightarrow> string \<Rightarrow> world
     \<Rightarrow> py_error option \<times> world" where
  "update_record env fl repo rid fld new_value w =
     (let (recs, w1) = read_all fl repo w in
      case display_table recs w1 of
        (Some e, w2) \<Rightarrow> (Some e, w2)
      | (None, w2) \<Rightarrow>
          (case find_record rid recs of
             Inl e \<Rightarrow> (Some e, w2)
           | Inr None \<Rightarrow> (None, say (IdNotFound rid) w2)
           | Inr (Some i) \<Rightarrow>
               (case write_all env fl repo
                       (recs[i := dict_set (recs ! i) fld (PStr new_value)]) w2 of
                  (Some e, w3) \<Rightarrow> (Some e, w3)
                | (None, w3) \<Rightarrow> (None, say (Updated rid) w3))))"

text \<open>\<open>[r for r in recs if r["id"] != rid]\<close>.\<close>

fun others :: "string \<Rightarrow> pydict list \<Rightarrow> py_error + pydict list" where
  "others rid [] = Inr []"
| "others rid (r # rs) =
     (case dict_item r (Some ''id'') of
        Inl e \<Rightarrow> Inl e
      | Inr v \<Rightarrow>
          (case others rid rs of
             Inl e \<Rightarrow> Inl e
           | Inr rs' \<Rightarrow> Inr (if v \<noteq> PStr rid then r # rs' else rs')))"

definition delete_record ::
  "env \<Rightarrow> faults \<Rightarrow> csv_repository \<Rightarrow> string \<Rightarrow> bool \<Rightarrow> world \<Rightarrow> py_error option \<times> world" where
  "delete_record env fl repo rid confirm w =
     (let (recs, w1) = read_all fl repo w in
      case display_table recs w1 of
        (Some e, w2) \<Rightarrow> (Some e, w2)
      | (None, w2) \<Rightarrow>
          if confirm then
            (case others rid recs of
               Inl e \<Rightarrow> (Some e, w2)
             | Inr keep \<Rightarrow>
                 (case write_all env fl repo keep w2 of
                    (Some e, w3) \<Rightarrow> (Some e, w3)
                  | (None, w3) \<Rightarrow> (None, say (Deleted rid) w3)))
          else (None, w2))"

text \<open>\<open>datetime.now().strftime("%Y%m%d_%H%M%S")\<close>.\<close>

record datetime =
  dt_year :: nat
  dt_month :: nat
  dt_day :: nat
  dt_hour :: nat
  dt_minute :: nat
  dt_second :: nat

definition zero_pad :: "nat \<Rightarrow> nat \<Rightarrow> string" where
  "zero_pad width n = replicate (width - length (decimal n)) CHR ''0'' @ decimal n"

definition strftime :: "datetime \<Rightarrow> string" where
  "strftime t =
     zero_pad 4 (dt_year t) @ zero_pad 2 (dt_month t) @ zero_pad 2 (dt_day t) @ ''_''
       @ zero_pad 2 (dt_hour t) @ zero_pad 2 (dt_minute t) @ zero_pad 2 (dt_second t)"

definition backup_dest :: "env \<Rightarrow> datetime \<Rightarrow> path" where
  "backup_dest env now = BACKUP_DIR env @ ''/data_backup_'' @ strftime now @ ''.csv''"

text \<open>
  \<open>backup_csv\<close>: \<open>shutil.copy\<close> straight onto the destination; an \<open>OSError\<close> is
  printed and nothing is done about what the copy left behind.
\<close>

definition backup_csv :: "env \<Rightarrow> faults \<Rightarrow> datetime \<Rightarrow> world \<Rightarrow> world" where
  "backup_csv env fl now w =
     (case shutil_copy fl (CSV_FILE env) (backup_dest env now) w of
        (None, tr) \<Rightarrow> say (BackupCreated (backup_dest env now)) (last (w # tr))
      | (Some e, tr) \<Rightarrow> say (BackupFailed e) (last (w # tr)))"

definition export_to_json ::
  "env \<Rightarrow> faults \<Rightarrow> csv_repository \<Rightarrow> path \<Rightarrow> world \<Rightarrow> world" where
  "export_to_json env fl repo fname w =
     (let (recs, w1) = read_all fl repo w in
      if f_dst_open fl then say (ExportFailed OSError) w1
      else (case f_dst_write fl of
              Some n \<Rightarrow>
                say (ExportFailed OSError) (put_file fname (take n (json_dumps env recs)) w1)
            | None \<Rightarrow>
                say (Exported (length recs) fname) (put_file fname (json_dumps env recs) w1)))"

text \<open>
  \<open>for r in recs\<close> over what \<open>json.loads\<close> gave: an array gives its elements, an
  object its keys and a string its characters (strings, not dictionaries), anything
  else is not iterable.
\<close>

fun iter_loaded :: "loaded \<Rightarrow> py_error + element list" where
  "iter_loaded (LArray xs) = Inr xs"
| "iter_loaded (LObject ks) = Inr (map (\<lambda>_. ENotDict) ks)"
| "iter_loaded (LString s) = Inr (map (\<lambda>_. ENotDict) s)"
| "iter_loaded LScalar = Inl TypeError"

text \<open>
  \<open>any(x["id"] == v for x in orig)\<close>; \<open>x["id"]\<close> comes from the reader, so it is a
  string or \<open>None\<close>.
\<close>

fun id_exists :: "pyval \<Rightarrow> pydict list \<Rightarrow> py_error + bool" where
  "id_exists v [] = Inr False"
| "id_exists v (x # xs) =
     (case dict_item x (Some ''id'') of
        Inl e \<Rightarrow> Inl e
      | Inr u \<Rightarrow> if u = v then Inr True else id_exists v xs)"

text \<open>
  The loop of \<open>import_from_json\<close>, with the counter and the list of skipped ids.
  The test \<open>r.get("id") and not any(...)\<close> is evaluated as "the id is empty or
  exists": \<open>Inr False\<close> leads to \<open>append\<close>, \<open>Inr True\<close> to the list of
  skipped ids.  \<open>count\<close> is raised after \<open>append\<close> returns, whether or not the
  row was written.
\<close>

fun import_loop ::
  "faults \<Rightarrow> csv_repository \<Rightarrow> pydict list \<Rightarrow> element list \<Rightarrow> nat \<Rightarrow> pyval list \<Rightarrow> world
     \<Rightarrow> py_error option \<times> nat \<times> pyval list \<times> world" where
  "import_loop fl repo orig [] count skipped w = (None, count, skipped, w)"
| "import_loop fl repo orig (ENotDict # rs) count skipped w = (Some AttributeError, count, skipped, w)"
| "import_loop fl repo orig (EDict r # rs) count skipped w =
     (let rid = dict_get r (Some ''id'') PNone in
      case (if truthy rid then id_exists rid orig else Inr True) of
        Inl e \<Rightarrow> (Some e, count, skipped, w)
      | Inr False \<Rightarrow>
          (case append fl repo r w of
             (Some e, w') \<Rightarrow> (Some e, count, skipped, w')
           | (None, w') \<Rightarrow> import_loop fl repo orig rs (count + 1) skipped w')
      | Inr True \<Rightarrow>
          import_loop fl repo orig rs count
            (skipped @ [dict_get r (Some ''id'') (PStr ''(no id)'')]) w)"

text \<open>\<open>', '.join(skipped)\<close> raises \<open>TypeError\<close> on an item that is not a string.\<close>

fun the_strings :: "pyval list \<Rightarrow> py_error + string list" where
  "the_strings [] = Inr []"
| "the_strings (PStr s # vs) =
     (case the_strings vs of Inl e \<Rightarrow> Inl e | Inr ss \<Rightarrow> Inr (s # ss))"
| "the_strings (_ # vs) = Inl TypeError"

definition import_from_json ::
  "env \<Rightarrow> faults \<Rightarrow> csv_repository \<Rightarrow> path \<Rightarrow> world \<Rightarrow> py_error option \<times> world" where
  "import_from_json env fl repo fname w =
     (case files w fname of
        None \<Rightarrow> (None, say (FileNotFound fname) w)
      | Some text \<Rightarrow>
          if f_open fl then (Some OSError, w)
          else (case json_loads env text of
                  None \<Rightarrow> (None, say InvalidJSON w)
                | Some recs \<Rightarrow>
                    let (orig, w1) = read_all fl repo w in
                    (case iter_loaded recs of
                       Inl e \<Rightarrow> (Some e, w1)
                     | Inr elems \<Rightarrow>
                         (case import_loop fl repo orig elems 0 [] w1 of
                            (Some e, count, skipped, w2) \<Rightarrow> (Some e, w2)
                          | (None, count, skipped, w2) \<Rightarrow>
                              let w3 = say (Imported count) w2 in
                              if skipped = [] then (None, w3)
                              else (case the_strings skipped of
                                      Inl e \<Rightarrow> (Some e, w3)
                                    | Inr ss \<Rightarrow> (None, say (Skipped (join '', '' ss)) w3))))))"

definition erase_all_data ::
  "env \<Rightarrow> faults \<Rightarrow> csv_repository \<Rightarrow> bool \<Rightarrow> world \<Rightarrow> py_error option \<times> world" where
  "erase_all_data env fl repo confirm w =
     (let (recs, w1) = read_all fl repo w in
      if confirm then
        (case write_all env fl repo [] w1 of
           (Some e, w2) \<Rightarrow> (Some e, w2)
         | (None, w2) \<Rightarrow> (None, say AllErased w2))
      else (None, w1))"

section \<open>The main loop\<close>

text \<open>
  One turn of the menu: the action chosen, with the answers to its prompts.  The
  failures of the system calls are given turn by turn.
\<close>

datatype action =
    ViewRecords
  | AddRecord "string \<Rightarrow> string option"
  | UpdateRecord string pykey string
  | DeleteRecord string bool
  | BackupCSV datetime
  | ExportJSON path
  | ImportJSON path
  | EraseAll bool
  | Quit

definition the_repo :: "env \<Rightarrow> csv_repository" where
  "the_repo env = \<lparr>path = CSV_FILE env, fieldnames = FIELDNAMES\<rparr>"

text \<open>
  The \<open>while True\<close> loop has no \<open>try\<close>: an exception that leaves an action ends
  the program.  The loop runs until \<open>Quit\<close>; here it also stops when the user's
  turns are used up.
\<close>

fun main_loop ::
  "env \<Rightarrow> csv_repository \<Rightarrow> (faults \<times> action) list \<Rightarrow> world \<Rightarrow> py_error option \<times> world" where
  "main_loop env repo [] w = (None, w)"
| "main_loop env repo ((fl, a) # turns) w =
     (case a of
        Quit \<Rightarrow> (None, w)
      | _ \<Rightarrow>
        (case (case a of
                 ViewRecords \<Rightarrow> (let (recs, w1) = read_all fl repo w in display_table recs w1)
               | AddRecord answer \<Rightarrow> add_record_flow fl repo answer w
               | UpdateRecord rid fld v \<Rightarrow> update_record env fl repo rid fld v w
               | DeleteRecord rid confirm \<Rightarrow> delete_record env fl repo rid confirm w
               | BackupCSV now \<Rightarrow> (None, backup_csv env fl now w)
               | ExportJSON fname \<Rightarrow> (None, export_to_json env fl repo fname w)
               | ImportJSON fname \<Rightarrow> import_from_json env fl repo fname w
               | EraseAll confirm \<Rightarrow> erase_all_data env fl repo confirm w
               | Quit \<Rightarrow> (None, w)) of
           (Some e, w') \<Rightarrow> (Some e, w')
         | (None, w') \<Rightarrow> main_loop env repo turns w'))"

definition main ::
  "env \<Rightarrow> faults \<Rightarrow> (faults \<times> action) list \<Rightarrow> world \<Rightarrow> py_error option \<times> world" where
  "main env fl0 turns w = main_loop env (the_repo env) turns (initialize fl0 (the_repo env) w)"

section \<open>The reader as one machine over the text\<close>

text \<open>
  For the proofs the two stages, the lines of the file and the reader fed line by
  line, are put into one function over the text: \<open>scan q b t\<close> reads the text \<open>t\<close>
  from the state \<open>q\<close>, where \<open>b\<close> says that the current line has characters
  already, and \<open>scan_eol\<close> gives the reader the end-of-line mark.
\<close>

function scan :: "reader \<Rightarrow> bool \<Rightarrow> string \<Rightarrow> string list list \<times> py_error option"
  and scan_eol :: "reader \<Rightarrow> string \<Rightarrow> string list list \<times> py_error option" where
  "scan q b [] = (if b then scan_eol q [] else reader_rows q [])"
| "scan q b (c # cs) =
     (case parse_process_char q (Some c) of
        Inl e \<Rightarrow> ([], Some e)
      | Inr q1 \<Rightarrow>
          if c = LF then scan_eol q1 cs
          else if c = CR then
            (case cs of
               [] \<Rightarrow> scan_eol q1 []
             | d # ds \<Rightarrow>
                 if d = LF then
                   (case parse_process_char q1 (Some LF) of
                      Inl e \<Rightarrow> ([], Some e)
                    | Inr q2 \<Rightarrow> scan_eol q2 ds)
                 else scan_eol q1 cs)
          else scan q1 True cs)"
| "scan_eol q cs =
     (case parse_process_char q None of
        Inl e \<Rightarrow> ([], Some e)
      | Inr q' \<Rightarrow>
          if pstate q' = START_RECORD
          then (let (rows, e) = scan parse_reset False cs in (pfields q' # rows, e))
          else scan q' False cs)"
  by pat_completeness auto
termination
  by (relation "measure (\<lambda>x. case x of
        Inl (q, b, cs) \<Rightarrow> 3 * length cs + (if b then 2 else 0)
      | Inr (q, cs) \<Rightarrow> 3 * length cs + 1)") auto


section \<open>Records that conform to the schema\<close>




definition cells_of :: "pydict \<Rightarrow> string list" where
  "cells_of r = map (\<lambda>kv. cell_text (snd kv)) r"

section \<open>Id assignment: what the spec says\<close>

text \<open>
  An id parses as a non-negative integer when it is a non-empty string of decimal
  digits (\<open>decimal_id\<close>); \<open>id_value\<close> is the integer, \<open>id_text\<close> the id of a
  record.
\<close>

definition decimal_id :: "string \<Rightarrow> bool" where
  "decimal_id s = (s \<noteq> [] \<and> list_all is_decimal_char s)"

definition id_value :: "string \<Rightarrow> int" where
  "id_value s = foldl (\<lambda>n c. 10 * n + digit_val c) 0 s"

definition id_text :: "pydict \<Rightarrow> string" where
  "id_text r = (case map_of r (Some ''id'') of Some (PStr s) \<Rightarrow> s | _ \<Rightarrow> [])"

section \<open>Import: what the spec says\<close>






section \<open>Concrete surroundings\<close>

text \<open>
  A machine whose temporary directory \<open>/tmp\<close> lies on another filesystem than the
  home directory, and a world given by the files it holds.
\<close>

definition demo_env :: "(string \<Rightarrow> loaded option) \<Rightarrow> env" where
  "demo_env loads = \<lparr>home = ''/home/user'', tempdir = ''/tmp'', temp_names = [''k3x9q2ab''],
     device = (\<lambda>p. if take 5 p = ''/tmp/'' then 1 else 0), json_loads = loads,
     json_dumps = (\<lambda>_. [])\<rparr>"

definition world_of :: "(path \<times> string) list \<Rightarrow> world" where
  "world_of fs = \<lparr>files = map_of fs, locks = [], console = []\<rparr>"

definition demo_csv :: path where
  "demo_csv = ''/home/user/Documents/CSVManager/data.csv''"



definition demo_record :: "string \<Rightarrow> string \<Rightarrow> pydict" where
  "demo_record i name = [(Some ''id'', PStr i), (Some ''nama kapal'', PStr name),
     (Some ''bendera'', PStr ''ID''), (Some ''agen'', PStr ''PT \"Laut\", Tbk''), (Some ''gt'', PStr ''500''),
     (Some ''muatan'', PStr []), (Some ''tujuan'', PStr [CHR ''A'', CR, LF, CHR ''B''])]"

text \<open>A world whose dataset holds three records.\<close>

definition demo_world :: world where
  "demo_world = world_of [(demo_csv,
     writeheader FIELDNAMES
       @ writerow (cells_of (demo_record ''1'' ''Sinar''))
       @ writerow (cells_of (demo_record ''2'' ''a,b''))
       @ writerow (cells_of (demo_record ''3'' ''Tiga'')))]"






text \<open>
  The failure of a copy after \<open>n\<close> characters (a full disk), the temporary file
  \<open>mkstemp\<close> makes on this machine, and a time of day.
\<close>

definition disk_full_at :: "nat \<Rightarrow> faults" where
  "disk_full_at n = no_faults\<lparr>f_dst_write := Some n\<rparr>"

definition demo_tmp :: path where
  "demo_tmp = ''/tmp/csvmgr_k3x9q2ab.tmp''"

definition demo_now :: datetime where
  "demo_now = \<lparr>dt_year = 2024, dt_month = 1, dt_day = 2, dt_hour = 3, dt_minute = 4, dt_second = 5\<rparr>"

section \<open>Evaluation\<close>

lemmas csv_eval = csv_reader_def file_lines_def feed_line_def parse_process_char_def parse_reset_def parse_save_field_def
  parse_add_char_def start_field_def is_newline_def after_newline_def field_limit_def
  writerow_def join_append_def special_def lineterminator_def writeheader_def
  reader_fieldnames_def dict_rows_def make_dict_def dict_to_list_def dict_writerow_def
  dict_get_def dict_item_def reader_rows.simps

lemmas world_eval = say_def put_file_def unlink_def no_faults_def read_all_def temp_path_def
  mkstemp_def shutil_copy_def shutil_move_def close_file_def acquire_lock_def
  write_all_except_def write_all_trace_def write_all_def append_def initialize_def

lemmas flow_eval = BASE_DIR_def CSV_FILE_def BACKUP_DIR_def display_table_def
  get_new_record_fields_def add_record_flow_def update_record_def delete_record_def
  backup_csv_def export_to_json_def import_from_json_def erase_all_data_def the_repo_def
  main_def demo_env_def world_of_def demo_csv_def FIELDNAMES_def next_id_def isdigit_def
  is_digit_char_def is_decimal_char_def py_int_def

section \<open>What the writer wrote, the reader reads\<close>

lemma feed_chars_append:
  "feed_chars p (a @ b) = (case feed_chars p a of Inl e \<Rightarrow> Inl e | Inr q \<Rightarrow> feed_chars q b)"
  by (induction a arbitrary: p) (auto split: sum.splits)

declare scan_eol.simps [simp del]

lemma parse_reset_simps [simp]:
  "pstate parse_reset = START_RECORD" "pfield parse_reset = []" "pfields parse_reset = []"
  by (simp_all add: parse_reset_def)

lemma reader_rows_Cons:
  "reader_rows p (l # ls) =
     (case feed_line p l of
        Inl e \<Rightarrow> ([], Some e)
      | Inr p' \<Rightarrow>
          if pstate p' = START_RECORD
          then (let (rows, e) = reader_rows parse_reset ls in (pfields p' # rows, e))
          else reader_rows p' ls)"
  by simp

declare reader_rows.simps(2) [simp del]

lemma scan_eol_Nil:
  "scan_eol q [] =
     (case parse_process_char q None of
        Inl e \<Rightarrow> ([], Some e)
      | Inr q' \<Rightarrow> if pstate q' = START_RECORD then ([pfields q'], None) else reader_rows q' [])"
  by (simp add: scan_eol.simps split: sum.splits)

lemma reader_rows_one:
  "feed_chars p l = Inr q \<Longrightarrow> reader_rows p [l] = scan_eol q []"
  by (simp add: reader_rows_Cons feed_line_def scan_eol_Nil split: sum.splits)

lemma reader_rows_one_err:
  "feed_chars p l = Inl e \<Longrightarrow> reader_rows p (l # ls) = ([], Some e)"
  by (simp add: reader_rows_Cons feed_line_def)

lemma reader_rows_line:
  "feed_chars p l = Inr q \<Longrightarrow>
   (\<And>q'. reader_rows q' ls = scan q' False t) \<Longrightarrow>
   reader_rows p (l # ls) = scan_eol q t"
  by (simp add: reader_rows_Cons feed_line_def scan_eol.simps split: sum.splits)

lemma scan_single: "c \<noteq> LF \<Longrightarrow> c \<noteq> CR \<Longrightarrow>
  scan q b [c] = (case parse_process_char q (Some c) of Inl e \<Rightarrow> ([], Some e) | Inr q1 \<Rightarrow> scan_eol q1 [])"
  by (simp split: sum.splits)

lemma reader_rows_scan:
  "reader_rows p (splitlines cur t) =
     (case feed_chars p cur of Inl e \<Rightarrow> ([], Some e) | Inr q \<Rightarrow> scan q (cur \<noteq> []) t)"
proof (induction cur t arbitrary: p rule: splitlines.induct)
  case (1 cur)
  show ?case
  proof (cases "feed_chars p cur")
    case (Inl e)
    then have "cur \<noteq> []" by auto
    with Inl show ?thesis by (simp add: reader_rows_one_err)
  next
    case (Inr q)
    then show ?thesis by (cases "cur = []") (simp_all add: reader_rows_one)
  qed
next
  case (2 cur c)
  show ?case
  proof (cases "feed_chars p cur")
    case (Inl e)
    then show ?thesis by (simp add: reader_rows_one_err feed_chars_append)
  next
    case (Inr q)
    show ?thesis
    proof (cases "parse_process_char q (Some c)")
      case (Inl e)
      with Inr show ?thesis by (simp add: reader_rows_one_err feed_chars_append)
    next
      case q1: (Inr q1)
      with Inr have "feed_chars p (cur @ [c]) = Inr q1" by (simp add: feed_chars_append)
      then have "reader_rows p [cur @ [c]] = scan_eol q1 []" by (rule reader_rows_one)
      with Inr q1 show ?thesis by simp
    qed
  qed
next
  case (3 cur c d cs)
  have err: "reader_rows p (splitlines cur (c # d # cs)) = ([], Some e)"
    if fe: "feed_chars p (cur @ [c]) = Inl e" for e
  proof (cases "c \<noteq> LF \<and> c \<noteq> CR")
    case True
    then have "reader_rows p (splitlines (cur @ [c]) (d # cs)) = ([], Some e)"
      using "3.IH"(4)[of p] fe by simp
    with True show ?thesis by simp
  next
    case False
    have "feed_chars p ((cur @ [c]) @ [d]) = Inl e"
      using fe by (simp add: feed_chars_append del: append_assoc)
    then have "feed_chars p (cur @ [c, d]) = Inl e" by simp
    with False fe show ?thesis by (auto simp: reader_rows_one_err)
  qed
  show ?case
  proof (cases "feed_chars p cur")
    case (Inl e)
    then have "feed_chars p (cur @ [c]) = Inl e" by (simp add: feed_chars_append)
    from err[OF this] Inl show ?thesis by simp
  next
    case (Inr q)
    show ?thesis
    proof (cases "parse_process_char q (Some c)")
      case (Inl e)
      with Inr have "feed_chars p (cur @ [c]) = Inl e" by (simp add: feed_chars_append)
      from err[OF this] Inr Inl show ?thesis by simp
    next
      case q1: (Inr q1)
      with Inr have f1: "feed_chars p (cur @ [c]) = Inr q1" by (simp add: feed_chars_append)
      consider (lf) "c = LF" | (crlf) "c = CR" "d = LF" | (cr) "c = CR" "d \<noteq> LF"
        | (other) "c \<noteq> LF" "c \<noteq> CR" by blast
      then show ?thesis
      proof cases
        case lf
        have "reader_rows p ((cur @ [c]) # splitlines [] (d # cs)) = scan_eol q1 (d # cs)"
          using f1 by (rule reader_rows_line) (simp add: "3.IH"(1)[OF lf])
        with lf Inr q1 show ?thesis by simp
      next
        case crlf
        show ?thesis
        proof (cases "parse_process_char q1 (Some LF)")
          case (Inl e)
          with f1 have "feed_chars p ((cur @ [c]) @ [d]) = Inl e"
            using crlf by (simp add: feed_chars_append del: append_assoc)
          then have "feed_chars p (cur @ [c, d]) = Inl e" by simp
          with crlf Inr q1 Inl show ?thesis by (simp add: reader_rows_one_err)
        next
          case q2: (Inr q2)
          with f1 have f2: "feed_chars p ((cur @ [c]) @ [d]) = Inr q2"
            using crlf by (simp add: feed_chars_append del: append_assoc)
          have "reader_rows p ((cur @ [c, d]) # splitlines [] cs) = scan_eol q2 cs"
            using f2 by (intro reader_rows_line) (simp_all add: "3.IH"(2) crlf)
          with crlf Inr q1 q2 show ?thesis by simp
        qed
      next
        case cr
        have "reader_rows p ((cur @ [c]) # splitlines [] (d # cs)) = scan_eol q1 (d # cs)"
          using f1 by (rule reader_rows_line) (simp add: "3.IH"(3) cr)
        with cr Inr q1 show ?thesis by simp
      next
        case other
        have "reader_rows p (splitlines (cur @ [c]) (d # cs)) = scan q1 True (d # cs)"
          using "3.IH"(4)[OF other, of p] f1 by simp
        with other Inr q1 show ?thesis by simp
      qed
    qed
  qed
qed


lemmas ppc_defs = parse_process_char_def parse_add_char_def parse_save_field_def start_field_def
  is_newline_def after_newline_def

lemma ppc_quoted_char:
  "pstate q = IN_QUOTED_FIELD \<Longrightarrow> c \<noteq> DQ \<Longrightarrow> length (pfield q) < field_limit \<Longrightarrow>
   parse_process_char q (Some c) = Inr (q\<lparr>pfield := pfield q @ [c]\<rparr>)"
  by (simp add: ppc_defs)

lemma ppc_quoted_dq:
  "pstate q = IN_QUOTED_FIELD \<Longrightarrow>
   parse_process_char q (Some DQ) = Inr (q\<lparr>pstate := QUOTE_IN_QUOTED_FIELD\<rparr>)"
  by (simp add: ppc_defs)

lemma ppc_quoted_eol:
  "pstate q = IN_QUOTED_FIELD \<Longrightarrow> parse_process_char q None = Inr q"
  by (simp add: ppc_defs)

lemma ppc_quote_dq:
  "pstate q = QUOTE_IN_QUOTED_FIELD \<Longrightarrow> length (pfield q) < field_limit \<Longrightarrow>
   parse_process_char q (Some DQ) = Inr (q\<lparr>pfield := pfield q @ [DQ], pstate := IN_QUOTED_FIELD\<rparr>)"
  by (simp add: ppc_defs)

lemma reader_update_order [simp]:
  "q\<lparr>pstate := a, pfield := b\<rparr> = q\<lparr>pfield := b, pstate := a\<rparr>"
  "q\<lparr>pstate := a, pfields := c\<rparr> = q\<lparr>pfields := c, pstate := a\<rparr>"
  "q\<lparr>pfield := b, pfields := c\<rparr> = q\<lparr>pfields := c, pfield := b\<rparr>"
  by (cases q; simp)+

lemma pstate_same: "pstate q = v \<Longrightarrow> q\<lparr>pstate := v\<rparr> = q"
  by (cases q) simp

lemma scan_eol_quoted:
  "pstate q = IN_QUOTED_FIELD \<Longrightarrow> scan_eol q cs = scan q False cs"
  by (simp add: scan_eol.simps ppc_quoted_eol)

lemma scan_quoted:
  "pstate q = IN_QUOTED_FIELD \<Longrightarrow> length (pfield q) + length s \<le> field_limit \<Longrightarrow>
   scan q b (double_quotes s @ DQ # rest)
     = scan (q\<lparr>pfield := pfield q @ s, pstate := QUOTE_IN_QUOTED_FIELD\<rparr>) True rest"
proof (induction s arbitrary: q b rule: length_induct)
  case (1 s)
  note IH = "1.IH"[rule_format]
  show ?case
  proof (cases s)
    case Nil
    with "1.prems" show ?thesis by (simp add: ppc_quoted_dq)
  next
    case (Cons c s')
    with "1.prems" have lt: "length (pfield q) < field_limit" by simp
    let ?q1 = "q\<lparr>pfield := pfield q @ [c]\<rparr>"
    have q1: "pstate ?q1 = IN_QUOTED_FIELD" "length (pfield ?q1) + length s' \<le> field_limit"
      using "1.prems" Cons by simp_all
    have fin: "?q1\<lparr>pfield := pfield ?q1 @ s', pstate := QUOTE_IN_QUOTED_FIELD\<rparr>
               = q\<lparr>pfield := pfield q @ s, pstate := QUOTE_IN_QUOTED_FIELD\<rparr>"
      using Cons by simp
    consider (dq) "c = DQ" | (lf) "c = LF" | (cr) "c = CR" | (other) "c \<noteq> DQ" "c \<noteq> LF" "c \<noteq> CR"
      by blast
    then show ?thesis
    proof cases
      case dq
      let ?qa = "q\<lparr>pstate := QUOTE_IN_QUOTED_FIELD\<rparr>"
      have "scan q b (double_quotes s @ DQ # rest) = scan ?qa True (DQ # double_quotes s' @ DQ # rest)"
        using Cons dq "1.prems" by (simp add: ppc_quoted_dq)
      also have "\<dots> = scan ?q1 True (double_quotes s' @ DQ # rest)"
      proof -
        have "q\<lparr>pfield := pfield q @ [DQ], pstate := IN_QUOTED_FIELD\<rparr> = q\<lparr>pfield := pfield q @ [DQ]\<rparr>"
          using "1.prems"(1) by (cases q) simp
        with lt dq show ?thesis by (simp add: ppc_quote_dq)
      qed
      also have "\<dots> = scan (?q1\<lparr>pfield := pfield ?q1 @ s', pstate := QUOTE_IN_QUOTED_FIELD\<rparr>) True rest"
        using q1 Cons by (intro IH) simp_all
      finally show ?thesis using fin by simp
    next
      case lf
      have "scan q b (double_quotes s @ DQ # rest) = scan ?q1 False (double_quotes s' @ DQ # rest)"
        using Cons lf "1.prems" lt by (simp add: ppc_quoted_char scan_eol_quoted)
      also have "\<dots> = scan (?q1\<lparr>pfield := pfield ?q1 @ s', pstate := QUOTE_IN_QUOTED_FIELD\<rparr>) True rest"
        using q1 Cons by (intro IH) simp_all
      finally show ?thesis using fin by simp
    next
      case other
      have "scan q b (double_quotes s @ DQ # rest) = scan ?q1 True (double_quotes s' @ DQ # rest)"
        using Cons other "1.prems" lt by (simp add: ppc_quoted_char)
      also have "\<dots> = scan (?q1\<lparr>pfield := pfield ?q1 @ s', pstate := QUOTE_IN_QUOTED_FIELD\<rparr>) True rest"
        using q1 Cons by (intro IH) simp_all
      finally show ?thesis using fin by simp
    next
      case cr
      show ?thesis
      proof (cases s')
        case Nil
        have "scan q b (double_quotes s @ DQ # rest) = scan ?q1 False (double_quotes s' @ DQ # rest)"
          using Cons Nil cr "1.prems" lt by (simp add: ppc_quoted_char scan_eol_quoted)
        also have "\<dots> = scan (?q1\<lparr>pfield := pfield ?q1 @ s', pstate := QUOTE_IN_QUOTED_FIELD\<rparr>) True rest"
          using q1 Cons by (intro IH) simp_all
        finally show ?thesis using fin by simp
      next
        case s': (Cons d s'')
        show ?thesis
        proof (cases "d = LF")
          case False
          have "scan q b (double_quotes s @ DQ # rest) = scan ?q1 False (double_quotes s' @ DQ # rest)"
            using Cons s' False cr "1.prems" lt by (simp add: ppc_quoted_char scan_eol_quoted)
          also have "\<dots> = scan (?q1\<lparr>pfield := pfield ?q1 @ s', pstate := QUOTE_IN_QUOTED_FIELD\<rparr>) True rest"
            using q1 Cons by (intro IH) simp_all
          finally show ?thesis using fin by simp
        next
          case True
          let ?q2 = "q\<lparr>pfield := pfield q @ [c, d]\<rparr>"
          have lt2: "length (pfield ?q1) < field_limit" using "1.prems" Cons s' by simp
          have "parse_process_char ?q1 (Some LF) = Inr (?q1\<lparr>pfield := pfield ?q1 @ [LF]\<rparr>)"
            using lt2 q1(1) by (intro ppc_quoted_char) simp_all
          then have "scan q b (double_quotes s @ DQ # rest) = scan ?q2 False (double_quotes s'' @ DQ # rest)"
            using Cons s' True cr "1.prems" lt by (simp add: ppc_quoted_char scan_eol_quoted)
          also have "\<dots> = scan (?q2\<lparr>pfield := pfield ?q2 @ s'', pstate := QUOTE_IN_QUOTED_FIELD\<rparr>) True rest"
            using "1.prems" Cons s' by (intro IH) simp_all
          finally show ?thesis using Cons s' by simp
        qed
      qed
    qed
  qed
qed


lemma let_apfst: "(let (rows, e) = X in (r # rows, e)) = apfst ((#) r) X"
  by (cases X) simp

lemma ppc_field_char:
  "pstate q = IN_FIELD \<Longrightarrow> \<not> special c \<Longrightarrow> length (pfield q) < field_limit \<Longrightarrow>
   parse_process_char q (Some c) = Inr (q\<lparr>pfield := pfield q @ [c]\<rparr>)"
  by (simp add: ppc_defs special_def)

lemma ppc_start_char:
  "pstate q = START_FIELD \<Longrightarrow> \<not> special c \<Longrightarrow> length (pfield q) < field_limit \<Longrightarrow>
   parse_process_char q (Some c) = Inr (q\<lparr>pfield := pfield q @ [c], pstate := IN_FIELD\<rparr>)"
  by (simp add: ppc_defs special_def)

lemma ppc_start_dq:
  "pstate q = START_FIELD \<Longrightarrow>
   parse_process_char q (Some DQ) = Inr (q\<lparr>pstate := IN_QUOTED_FIELD\<rparr>)"
  by (simp add: ppc_defs)

lemma ppc_comma:
  "pstate q = START_FIELD \<or> pstate q = IN_FIELD \<or> pstate q = QUOTE_IN_QUOTED_FIELD \<Longrightarrow>
   parse_process_char q (Some COMMA) = Inr ((parse_save_field q)\<lparr>pstate := START_FIELD\<rparr>)"
  by (auto simp: ppc_defs)

lemma scan_plain:
  "pstate q = IN_FIELD \<Longrightarrow> \<not> list_ex special s \<Longrightarrow>
   length (pfield q) + length s \<le> field_limit \<Longrightarrow>
   scan q True (s @ rest) = scan (q\<lparr>pfield := pfield q @ s\<rparr>) True rest"
proof (induction s arbitrary: q)
  case Nil
  then show ?case by simp
next
  case (Cons c s)
  let ?q1 = "q\<lparr>pfield := pfield q @ [c]\<rparr>"
  from Cons.prems have c: "\<not> special c" "c \<noteq> LF" "c \<noteq> CR" and lt: "length (pfield q) < field_limit"
    by (auto simp: special_def)
  have "scan q True ((c # s) @ rest) = scan ?q1 True (s @ rest)"
    using c lt Cons.prems(1) by (simp add: ppc_field_char)
  also have "\<dots> = scan (?q1\<lparr>pfield := pfield ?q1 @ s\<rparr>) True rest"
    using Cons.prems by (intro Cons.IH) simp_all
  finally show ?case by simp
qed

lemma ppc_end_cr:
  "pstate q = START_FIELD \<or> pstate q = IN_FIELD \<or> pstate q = QUOTE_IN_QUOTED_FIELD \<Longrightarrow>
   parse_process_char q (Some CR) = Inr ((parse_save_field q)\<lparr>pstate := EAT_CRNL\<rparr>)"
  by (auto simp: ppc_defs)

lemma ppc_eat_lf:
  "pstate q = EAT_CRNL \<Longrightarrow> parse_process_char q (Some LF) = Inr q"
  by (simp add: ppc_defs)

lemma ppc_eat_eol:
  "pstate q = EAT_CRNL \<Longrightarrow> parse_process_char q None = Inr (q\<lparr>pstate := START_RECORD\<rparr>)"
  by (simp add: ppc_defs)

lemma scan_end_row:
  assumes "pstate q = START_FIELD \<or> pstate q = IN_FIELD \<or> pstate q = QUOTE_IN_QUOTED_FIELD"
  shows "scan q b (CR # LF # rest)
           = apfst ((#) (pfields q @ [pfield q])) (scan parse_reset False rest)"
  using assms
  by (simp add: ppc_end_cr ppc_eat_lf ppc_eat_eol scan_eol.simps let_apfst parse_save_field_def)

lemma scan_cell:
  assumes "pstate q = START_FIELD" "pfield q = []" "length s \<le> field_limit"
  shows "\<exists>st. (st = START_FIELD \<or> st = IN_FIELD \<or> st = QUOTE_IN_QUOTED_FIELD) \<and>
           (\<forall>d rest. (d = COMMA \<or> d = CR) \<longrightarrow>
              scan q b (join_append s @ d # rest)
                = scan (q\<lparr>pfield := s, pstate := st\<rparr>) (b \<or> s \<noteq> []) (d # rest))"
proof (cases "list_ex special s")
  case True
  let ?q0 = "q\<lparr>pstate := IN_QUOTED_FIELD\<rparr>"
  have "scan q b (join_append s @ d # rest)
          = scan (q\<lparr>pfield := s, pstate := QUOTE_IN_QUOTED_FIELD\<rparr>) True (d # rest)" for d rest
  proof -
    have "scan q b (join_append s @ d # rest) = scan ?q0 True (double_quotes s @ DQ # d # rest)"
      using True assms by (simp add: join_append_def ppc_start_dq)
    also have "\<dots> = scan (?q0\<lparr>pfield := pfield ?q0 @ s, pstate := QUOTE_IN_QUOTED_FIELD\<rparr>) True (d # rest)"
      using assms by (intro scan_quoted) simp_all
    finally show ?thesis using assms by (simp del: scan.simps)
  qed
  moreover from True have "s \<noteq> []" by auto
  ultimately show ?thesis by auto
next
  case False
  show ?thesis
  proof (cases s)
    case Nil
    have "q\<lparr>pfield := [], pstate := START_FIELD\<rparr> = q" using assms by (cases q) simp
    with Nil show ?thesis
      by (intro exI[of _ START_FIELD]) (simp add: join_append_def del: scan.simps)
  next
    case (Cons c s')
    let ?q1 = "q\<lparr>pfield := [c], pstate := IN_FIELD\<rparr>"
    from False Cons have c: "\<not> special c" "c \<noteq> LF" "c \<noteq> CR" and s': "\<not> list_ex special s'"
      by (auto simp: special_def)
    have "scan q b (join_append s @ d # rest) = scan (q\<lparr>pfield := s, pstate := IN_FIELD\<rparr>) True (d # rest)"
      for d rest
    proof -
      have "scan q b (join_append s @ d # rest) = scan ?q1 True (s' @ d # rest)"
        using False Cons c assms by (simp add: join_append_def ppc_start_char field_limit_def)
      also have "\<dots> = scan (?q1\<lparr>pfield := pfield ?q1 @ s'\<rparr>) True (d # rest)"
        using assms Cons s' by (intro scan_plain) simp_all
      finally show ?thesis using Cons by (simp del: scan.simps)
    qed
    with Cons show ?thesis by auto
  qed
qed

lemma scan_cell_comma:
  assumes "pstate q = START_FIELD" "pfield q = []" "length s \<le> field_limit"
  shows "scan q b (join_append s @ COMMA # rest) = scan (q\<lparr>pfields := pfields q @ [s]\<rparr>) True rest"
proof -
  from scan_cell[OF assms, of b] obtain st where
    st: "st = START_FIELD \<or> st = IN_FIELD \<or> st = QUOTE_IN_QUOTED_FIELD"
    and eq: "scan q b (join_append s @ COMMA # rest)
               = scan (q\<lparr>pfield := s, pstate := st\<rparr>) (b \<or> s \<noteq> []) (COMMA # rest)"
    by blast
  let ?q1 = "q\<lparr>pfield := s, pstate := st\<rparr>"
  have "parse_process_char ?q1 (Some COMMA) = Inr ((parse_save_field ?q1)\<lparr>pstate := START_FIELD\<rparr>)"
    using st by (intro ppc_comma) simp
  moreover have "(parse_save_field ?q1)\<lparr>pstate := START_FIELD\<rparr> = q\<lparr>pfields := pfields q @ [s]\<rparr>"
    using assms by (cases q) (simp add: parse_save_field_def)
  ultimately show ?thesis using eq by (simp add: special_def)
qed

lemma scan_cell_end:
  assumes "pstate q = START_FIELD" "pfield q = []" "length s \<le> field_limit"
  shows "scan q b (join_append s @ CR # LF # rest)
           = apfst ((#) (pfields q @ [s])) (scan parse_reset False rest)"
proof -
  from scan_cell[OF assms, of b] obtain st where
    st: "st = START_FIELD \<or> st = IN_FIELD \<or> st = QUOTE_IN_QUOTED_FIELD"
    and eq: "scan q b (join_append s @ CR # LF # rest)
               = scan (q\<lparr>pfield := s, pstate := st\<rparr>) (b \<or> s \<noteq> []) (CR # LF # rest)"
    by blast
  let ?q1 = "q\<lparr>pfield := s, pstate := st\<rparr>"
  have "scan ?q1 (b \<or> s \<noteq> []) (CR # LF # rest)
          = apfst ((#) (pfields ?q1 @ [pfield ?q1])) (scan parse_reset False rest)"
    using st by (intro scan_end_row) simp
  with eq show ?thesis by (simp del: scan.simps)
qed


lemma scan_cells:
  "cells \<noteq> [] \<Longrightarrow> pstate q = START_FIELD \<Longrightarrow> pfield q = [] \<Longrightarrow>
   \<forall>c \<in> set cells. length c \<le> field_limit \<Longrightarrow>
   scan q b (join [COMMA] (map join_append cells) @ CR # LF # rest)
     = apfst ((#) (pfields q @ cells)) (scan parse_reset False rest)"
proof (induction cells arbitrary: q b rule: list_nonempty_induct)
  case (single c)
  then show ?case by (simp add: scan_cell_end del: scan.simps)
next
  case (cons c cells)
  then obtain d ds where cells: "cells = d # ds" by (cases cells) auto
  let ?q1 = "q\<lparr>pfields := pfields q @ [c]\<rparr>"
  have "scan q b (join [COMMA] (map join_append (c # cells)) @ CR # LF # rest)
          = scan q b (join_append c @ COMMA # join [COMMA] (map join_append cells) @ CR # LF # rest)"
    by (simp add: cells del: scan.simps)
  also have "\<dots> = scan ?q1 True (join [COMMA] (map join_append cells) @ CR # LF # rest)"
    using cons.prems by (intro scan_cell_comma) simp_all
  also have "\<dots> = apfst ((#) (pfields ?q1 @ cells)) (scan parse_reset False rest)"
    using cons.prems by (intro cons.IH) simp_all
  finally show ?case by simp
qed

lemma join_Cons: "join sep (x # xs) = x @ (if xs = [] then [] else sep @ join sep xs)"
  by (cases xs) simp_all

lemma join_append_head:
  "s \<noteq> [] \<Longrightarrow> \<exists>c cs. join_append s = c # cs \<and> c \<noteq> CR \<and> c \<noteq> LF"
  by (cases s) (auto simp: join_append_def special_def)

lemma row_head:
  assumes "cells \<noteq> []" "cells \<noteq> [[]]"
  shows "\<exists>c cs. join [COMMA] (map join_append cells) = c # cs \<and> c \<noteq> CR \<and> c \<noteq> LF"
proof -
  from assms obtain s ss where cells: "cells = s # ss" by (cases cells) auto
  show ?thesis
  proof (cases "s = []")
    case True
    with assms cells have "ss \<noteq> []" by auto
    with True cells show ?thesis by (simp add: join_Cons join_append_def)
  next
    case False
    from join_append_head[OF this] obtain c cs where "join_append s = c # cs" "c \<noteq> CR" "c \<noteq> LF"
      by blast
    with cells show ?thesis by (simp add: join_Cons)
  qed
qed

lemma join_row_empty:
  "join [COMMA] (map join_append cells) = [] \<longleftrightarrow> cells = [] \<or> cells = [[]]"
proof (cases cells)
  case Nil
  then show ?thesis by simp
next
  case (Cons s ss)
  have "join_append s = [] \<longleftrightarrow> s = []" by (cases s) (simp_all add: join_append_def)
  with Cons show ?thesis by (auto simp: join_Cons)
qed

lemma scan_start_record:
  "pstate q = START_RECORD \<Longrightarrow> c \<noteq> CR \<Longrightarrow> c \<noteq> LF \<Longrightarrow>
   scan q b (c # cs) = scan (q\<lparr>pstate := START_FIELD\<rparr>) b (c # cs)"
  by (simp add: parse_process_char_def)

lemma scan_row:
  assumes "\<forall>c \<in> set cells. length c \<le> field_limit"
  shows "scan parse_reset False (writerow cells @ rest)
           = apfst ((#) cells) (scan parse_reset False rest)"
proof -
  consider (none) "cells = []" | (blank) "cells = [[]]" | (some) "cells \<noteq> []" "cells \<noteq> [[]]"
    by blast
  then show ?thesis
  proof cases
    case none
    then show ?thesis
      by (simp add: writerow_def lineterminator_def ppc_defs parse_reset_def
          scan_eol.simps let_apfst)
  next
    case blank
    then show ?thesis
      by (simp add: writerow_def lineterminator_def join_append_def ppc_defs parse_reset_def
          scan_eol.simps let_apfst)
  next
    case some
    from row_head[OF some] obtain c cs where
      hd: "join [COMMA] (map join_append cells) = c # cs" "c \<noteq> CR" "c \<noteq> LF" by blast
    let ?body = "join [COMMA] (map join_append cells)"
    let ?q = "parse_reset\<lparr>pstate := START_FIELD\<rparr>"
    have "writerow cells @ rest = ?body @ CR # LF # rest"
      using some by (simp add: writerow_def lineterminator_def join_row_empty)
    then have "scan parse_reset False (writerow cells @ rest) = scan parse_reset False (c # cs @ CR # LF # rest)"
      using hd by simp
    also have "\<dots> = scan ?q False (c # cs @ CR # LF # rest)"
      using hd by (intro scan_start_record) simp_all
    also have "\<dots> = scan ?q False (?body @ CR # LF # rest)"
      using hd by simp
    also have "\<dots> = apfst ((#) (pfields ?q @ cells)) (scan parse_reset False rest)"
      using some assms by (intro scan_cells) simp_all
    finally show ?thesis by simp
  qed
qed


lemma csv_reader_scan: "csv_reader t = scan parse_reset False t"
  by (simp add: csv_reader_def file_lines_def reader_rows_scan)


lemma csv_reader_first_row:
  "\<forall>c \<in> set cells. length c \<le> field_limit \<Longrightarrow>
   csv_reader (writerow cells @ rest) = apfst ((#) cells) (csv_reader rest)"
  by (simp add: csv_reader_scan scan_row)

section \<open>Round trip through the file\<close>











lemma mkstemp_fresh: "mkstemp env w = Some tp \<Longrightarrow> files w tp = None"
  by (auto simp: mkstemp_def find_Some_iff)

















section \<open>What read_all returns\<close>


















section \<open>Delete\<close>










section \<open>Update\<close>











section \<open>Header mismatch\<close>

lemma reader_fieldnames_first_row:
  "\<forall>c \<in> set header. length c \<le> field_limit \<Longrightarrow>
   reader_fieldnames (writerow header @ rest) = Inr (Some header)"
  by (cases "csv_reader rest") (simp add: reader_fieldnames_def csv_reader_first_row)



text \<open>For a header line as the writer writes it, whatever text follows.\<close>

lemma header_mismatch_any_rows:
  assumes "files w (path repo) = Some (writerow header @ rest)"
    and "header \<noteq> fieldnames repo"
    and "\<forall>c \<in> set header. length c \<le> field_limit"
  shows "read_all no_faults repo w = ([], say HeaderMismatch w)"
  using assms by (simp add: read_all_def no_faults_def reader_fieldnames_first_row)

section \<open>Import\<close>














section \<open>Atomic replacement\<close>

lemma demo_paths:
  "CSV_FILE (demo_env l) = demo_csv"
  "path (the_repo (demo_env l)) = demo_csv"
  "fieldnames (the_repo (demo_env l)) = FIELDNAMES"
  "mkstemp (demo_env l) demo_world = Some demo_tmp"
  "demo_tmp \<noteq> demo_csv"
  "demo_csv \<noteq> demo_tmp"
  by (simp_all add: CSV_FILE_def BASE_DIR_def the_repo_def demo_env_def demo_csv_def mkstemp_def
      temp_path_def demo_world_def world_of_def demo_tmp_def)

text \<open>
  When the temporary file lies on the filesystem of the dataset and \<open>os.rename\<close>
  does not fail, \<open>write_all\<close> is all or nothing whatever else fails, and leaves no
  temporary file: the dataset file is the old one or the new one.
\<close>

lemma write_all_same_device_all_or_nothing:
  assumes "mkstemp env w = Some tp" "tp \<noteq> path repo"
    and "device env tp = device env (path repo)" "\<not> f_rename fl"
    and "dict_writerows (fieldnames repo) recs = (rows, None)"
  shows "files (snd (write_all env fl repo recs w)) tp = None"
    and "files (snd (write_all env fl repo recs w)) (path repo) = files w (path repo)
         \<or> files (snd (write_all env fl repo recs w)) (path repo)
              = Some (writeheader (fieldnames repo) @ rows)"
  using assms mkstemp_fresh[OF assms(1)]
  by (auto simp: write_all_def write_all_trace_def shutil_move_def
      write_all_except_def close_file_def acquire_lock_def put_file_def unlink_def say_def Let_def
      split: option.splits)

text \<open>
  Claim C2.  A \<open>write_all\<close> that fails leaves the dataset file as it was and no
  temporary file.  The temporary file is made in the system's temporary directory, not
  beside the dataset; where that is another filesystem \<open>shutil.move\<close> cannot rename
  and copies onto the dataset file.  When the copy fails after ten characters (the
  disk is full), the error is caught and printed and the temporary file is removed, but
  the dataset file holds those ten characters instead of its three records.
\<close>

theorem write_all_copy_failure_corrupts:
  "fst (write_all (demo_env (\<lambda>_. None)) (disk_full_at 10) (the_repo (demo_env (\<lambda>_. None)))
          [] demo_world) = None
   \<and> console (snd (write_all (demo_env (\<lambda>_. None)) (disk_full_at 10)
                     (the_repo (demo_env (\<lambda>_. None))) [] demo_world))
       = [ErrorWriting OSError]
   \<and> files (snd (write_all (demo_env (\<lambda>_. None)) (disk_full_at 10)
                   (the_repo (demo_env (\<lambda>_. None))) [] demo_world)) demo_tmp = None
   \<and> files (snd (write_all (demo_env (\<lambda>_. None)) (disk_full_at 10)
                   (the_repo (demo_env (\<lambda>_. None))) [] demo_world)) demo_csv
       = Some ''id,nama ka''
   \<and> files demo_world demo_csv \<noteq> Some ''id,nama ka''"
proof -
  have d: "device (demo_env (\<lambda>_. None)) demo_tmp \<noteq> device (demo_env (\<lambda>_. None)) demo_csv"
    by (simp add: demo_env_def demo_tmp_def demo_csv_def)
  have t: "take 10 (writeheader FIELDNAMES) = ''id,nama ka''"
    by (simp add: writeheader_def writerow_def join_append_def special_def FIELDNAMES_def
        lineterminator_def)
  have c: "console demo_world = []" by (simp add: demo_world_def world_of_def)
  have 1: "fst (write_all (demo_env (\<lambda>_. None)) (disk_full_at 10) (the_repo (demo_env (\<lambda>_. None)))
                  [] demo_world) = None"
    "console (snd (write_all (demo_env (\<lambda>_. None)) (disk_full_at 10)
                     (the_repo (demo_env (\<lambda>_. None))) [] demo_world))
       = [ErrorWriting OSError]"
    "files (snd (write_all (demo_env (\<lambda>_. None)) (disk_full_at 10)
                   (the_repo (demo_env (\<lambda>_. None))) [] demo_world)) demo_tmp = None"
    "files (snd (write_all (demo_env (\<lambda>_. None)) (disk_full_at 10)
                   (the_repo (demo_env (\<lambda>_. None))) [] demo_world)) demo_csv
       = Some ''id,nama ka''"
    using d demo_paths(5,6)
    by (simp_all add: write_all_def write_all_trace_def demo_paths disk_full_at_def no_faults_def
        shutil_move_def shutil_copy_def write_all_except_def close_file_def acquire_lock_def
        put_file_def unlink_def say_def Let_def t c)
  have 2: "files demo_world demo_csv \<noteq> Some ''id,nama ka''"
    by (simp add: demo_world_def world_of_def writeheader_def writerow_def join_append_def
        special_def FIELDNAMES_def lineterminator_def)
  from 1 2 show ?thesis by simp
qed

text \<open>
  Claim C3.  \<open>write_all\<close> writes to a temporary file on the filesystem of the
  dataset and renames it onto the dataset file, so that no partly written dataset file is
  ever visible.  On this machine the temporary file lies on another filesystem than the
  dataset file, and a \<open>write_all\<close> in which nothing fails takes the dataset file
  through the empty file before it holds the new text.
\<close>

theorem write_all_cross_device_trace:
  "mkstemp (demo_env (\<lambda>_. None)) demo_world = Some demo_tmp
   \<and> device (demo_env (\<lambda>_. None)) demo_tmp \<noteq> device (demo_env (\<lambda>_. None)) demo_csv
   \<and> fst (write_all_trace (demo_env (\<lambda>_. None)) no_faults (the_repo (demo_env (\<lambda>_. None)))
            [] demo_world) = None
   \<and> map (\<lambda>w. files w demo_csv)
         (snd (write_all_trace (demo_env (\<lambda>_. None)) no_faults (the_repo (demo_env (\<lambda>_. None)))
                 [] demo_world))
       = [files demo_world demo_csv, files demo_world demo_csv, files demo_world demo_csv,
          Some [], Some (writeheader FIELDNAMES), Some (writeheader FIELDNAMES)]
   \<and> files demo_world demo_csv \<noteq> Some []
   \<and> writeheader FIELDNAMES \<noteq> []"
proof -
  have d: "device (demo_env (\<lambda>_. None)) demo_tmp \<noteq> device (demo_env (\<lambda>_. None)) demo_csv"
    by (simp add: demo_env_def demo_tmp_def demo_csv_def)
  have 1: "fst (write_all_trace (demo_env (\<lambda>_. None)) no_faults (the_repo (demo_env (\<lambda>_. None)))
            [] demo_world) = None"
    "map (\<lambda>w. files w demo_csv)
         (snd (write_all_trace (demo_env (\<lambda>_. None)) no_faults (the_repo (demo_env (\<lambda>_. None)))
                 [] demo_world))
       = [files demo_world demo_csv, files demo_world demo_csv, files demo_world demo_csv,
          Some [], Some (writeheader FIELDNAMES), Some (writeheader FIELDNAMES)]"
    using d demo_paths(5,6)
    by (simp_all add: write_all_trace_def demo_paths no_faults_def
        shutil_move_def shutil_copy_def close_file_def acquire_lock_def
        put_file_def unlink_def Let_def)
  have 2: "files demo_world demo_csv \<noteq> Some []" "writeheader FIELDNAMES \<noteq> []"
    by (simp_all add: demo_world_def world_of_def writeheader_def writerow_def join_append_def
        special_def FIELDNAMES_def lineterminator_def)
  from 1 2 d demo_paths(4) show ?thesis by simp
qed

section \<open>Backup\<close>

lemma demo_strftime: "strftime demo_now = ''20240102_030405''"
  by (simp add: strftime_def demo_now_def zero_pad_def char_of_eq_iff)

text \<open>
  Claim C9, as the spec states it: a backup that fails leaves no partial file at the
  destination.  \<open>backup_csv\<close> copies straight onto the destination and does nothing
  about it when the copy fails: after a copy that fails at ten characters the
  destination, which did not exist, holds those ten characters.
\<close>

theorem backup_csv_partial_file:
  "files demo_world (backup_dest (demo_env (\<lambda>_. None)) demo_now) = None
   \<and> files (backup_csv (demo_env (\<lambda>_. None)) (disk_full_at 10) demo_now demo_world)
         (backup_dest (demo_env (\<lambda>_. None)) demo_now) = Some ''id,nama ka''
   \<and> files demo_world demo_csv \<noteq> Some ''id,nama ka''
   \<and> console (backup_csv (demo_env (\<lambda>_. None)) (disk_full_at 10) demo_now demo_world)
       = [BackupFailed OSError]"
proof -
  let ?env = "demo_env (\<lambda>_. None)"
  have d: "backup_dest ?env demo_now
             = ''/home/user/Documents/CSVManager/backups/data_backup_20240102_030405.csv''"
    by (simp add: backup_dest_def BACKUP_DIR_def BASE_DIR_def demo_env_def demo_strftime)
  have 1: "files demo_world (backup_dest ?env demo_now) = None"
    by (simp add: d demo_world_def world_of_def demo_csv_def)
  have t: "take 10 (the (files demo_world demo_csv)) = ''id,nama ka''"
    by (simp add: demo_world_def world_of_def writeheader_def writerow_def join_append_def
        special_def FIELDNAMES_def lineterminator_def)
  have 2: "files demo_world demo_csv \<noteq> Some ''id,nama ka''"
    by (simp add: demo_world_def world_of_def writeheader_def writerow_def join_append_def
        special_def FIELDNAMES_def lineterminator_def)
  obtain x where x: "files demo_world demo_csv = Some x"
    by (simp add: demo_world_def world_of_def)
  have c: "console demo_world = []" by (simp add: demo_world_def world_of_def)
  have 3: "files (backup_csv ?env (disk_full_at 10) demo_now demo_world) (backup_dest ?env demo_now)
             = Some ''id,nama ka''"
    "console (backup_csv ?env (disk_full_at 10) demo_now demo_world) = [BackupFailed OSError]"
    using x t c
    by (simp_all add: backup_csv_def shutil_copy_def disk_full_at_def no_faults_def demo_paths
        put_file_def say_def Let_def)
  from 1 2 3 show ?thesis by simp
qed

text \<open>
  Claim C9, amended.  The destination is the file \<open>data_backup_\<close>, the time stamp,
  \<open>.csv\<close> in the backups directory.  \<open>backup_csv\<close> raises nothing.  When the
  dataset file does not exist or the destination cannot be opened, the failure is
  printed and nothing is changed.  When the copy runs to its end, the destination holds
  the text of the dataset file and no other file is changed (and the backup is
  reported, unless copying the file mode failed).  When the copy fails midway, the
  failure is printed and the destination holds the part that was copied.
\<close>

theorem backup_csv_outcomes:
  "backup_dest env now = home env @ ''/Documents/CSVManager/backups/data_backup_'' @ strftime now @ ''.csv''
   \<and> (files w (CSV_FILE env) = None \<or> f_dst_open fl \<longrightarrow>
        backup_csv env fl now w = say (BackupFailed OSError) w)
   \<and> (files w (CSV_FILE env) = Some t \<and> \<not> f_dst_open fl \<and> f_dst_write fl = None \<longrightarrow>
        files (backup_csv env fl now w) (backup_dest env now) = Some t
        \<and> (\<forall>p. p \<noteq> backup_dest env now \<longrightarrow> files (backup_csv env fl now w) p = files w p)
        \<and> console (backup_csv env fl now w)
            = console w @ [if f_dst_meta fl then BackupFailed OSError
                           else BackupCreated (backup_dest env now)])
   \<and> (files w (CSV_FILE env) = Some t \<and> \<not> f_dst_open fl \<and> f_dst_write fl = Some n \<longrightarrow>
        files (backup_csv env fl now w) (backup_dest env now) = Some (take n t)
        \<and> console (backup_csv env fl now w) = console w @ [BackupFailed OSError])"
  by (auto simp: backup_csv_def shutil_copy_def backup_dest_def BACKUP_DIR_def BASE_DIR_def
      put_file_def say_def Let_def split: option.splits)

theorem backup_csv_outcomes_witness:
  "files demo_world (CSV_FILE (demo_env (\<lambda>_. None))) = files demo_world demo_csv
   \<and> files demo_world demo_csv \<noteq> None
   \<and> \<not> f_dst_open no_faults \<and> f_dst_write no_faults = None
   \<and> backup_dest (demo_env (\<lambda>_. None)) demo_now
       = ''/home/user/Documents/CSVManager/backups/data_backup_20240102_030405.csv''
   \<and> files (backup_csv (demo_env (\<lambda>_. None)) no_faults demo_now demo_world)
         ''/home/user/Documents/CSVManager/backups/data_backup_20240102_030405.csv''
       = files demo_world demo_csv
   \<and> console (backup_csv (demo_env (\<lambda>_. None)) no_faults demo_now demo_world)
       = [BackupCreated ''/home/user/Documents/CSVManager/backups/data_backup_20240102_030405.csv'']"
proof -
  let ?env = "demo_env (\<lambda>_. None)"
  obtain t where t: "files demo_world demo_csv = Some t"
    by (simp add: demo_world_def world_of_def)
  have p: "CSV_FILE ?env = demo_csv" by (rule demo_paths)
  have nf: "\<not> f_dst_open no_faults" "f_dst_write no_faults = None" "\<not> f_dst_meta no_faults"
    by (simp_all add: no_faults_def)
  have d: "backup_dest ?env demo_now
             = ''/home/user/Documents/CSVManager/backups/data_backup_20240102_030405.csv''"
    by (simp add: backup_dest_def BACKUP_DIR_def BASE_DIR_def demo_env_def demo_strftime)
  have c: "console demo_world = []" by (simp add: demo_world_def world_of_def)
  have "files demo_world (CSV_FILE ?env) = Some t \<and> \<not> f_dst_open no_faults
          \<and> f_dst_write no_faults = None"
    using t p nf by simp
  with backup_csv_outcomes[of ?env demo_now demo_world no_faults t, THEN conjunct2,
      THEN conjunct2, THEN conjunct1]
  have "files (backup_csv ?env no_faults demo_now demo_world) (backup_dest ?env demo_now) = Some t
        \<and> (\<forall>p. p \<noteq> backup_dest ?env demo_now \<longrightarrow>
               files (backup_csv ?env no_faults demo_now demo_world) p = files demo_world p)
        \<and> console (backup_csv ?env no_faults demo_now demo_world)
            = console demo_world @ [if f_dst_meta no_faults then BackupFailed OSError
                           else BackupCreated (backup_dest ?env demo_now)]"
    by (rule mp)
  then have "files (backup_csv ?env no_faults demo_now demo_world) (backup_dest ?env demo_now) = Some t"
    and "console (backup_csv ?env no_faults demo_now demo_world)
           = console demo_world @ [BackupCreated (backup_dest ?env demo_now)]"
    using nf(3) by simp_all
  with t p nf d c show ?thesis by simp
qed

section \<open>The next id\<close>

lemma next_id_examples:
  "next_id [[(Some ''id'', PStr ''1'')], [(Some ''id'', PStr ''3'')], [(Some ''id'', PStr ''x'')]]
     = Inr ''4''"
  "next_id [] = Inr ''1''"
  by (simp_all add: next_id_def dict_item_def isdigit_def is_digit_char_def is_decimal_char_def
      py_int_def digit_val_def max_default_def py_str_def char_of_eq_iff)

text \<open>
  Where every id that \<open>isdigit\<close> accepts is made of decimal digits, the next id is
  one more than the largest id that parses, or one when none does.
\<close>

lemma existing_ids_decimal:
  "\<forall>r \<in> set recs. \<exists>s. map_of r (Some ''id'') = Some (PStr s) \<and> (isdigit s \<longrightarrow> decimal_id s) \<Longrightarrow>
   existing_ids recs = Inr (map id_value (filter decimal_id (map id_text recs)))"
proof (induction recs)
  case Nil
  then show ?case by simp
next
  case (Cons r recs)
  then obtain s where s: "map_of r (Some ''id'') = Some (PStr s)" "isdigit s \<longrightarrow> decimal_id s"
    by auto
  have d: "decimal_id s \<Longrightarrow> isdigit s"
    by (auto simp: decimal_id_def isdigit_def is_digit_char_def list_all_iff)
  show ?case
  proof (cases "isdigit s")
    case True
    with s have "decimal_id s" by simp
    with True s Cons show ?thesis
      by (simp add: dict_item_def id_text_def py_int_def id_value_def decimal_id_def)
  next
    case False
    with d have "\<not> decimal_id s" by blast
    with False s Cons show ?thesis
      by (simp add: dict_item_def id_text_def)
  qed
qed

lemma next_id_decimal:
  assumes "\<forall>r \<in> set recs. \<exists>s. map_of r (Some ''id'') = Some (PStr s) \<and> (isdigit s \<longrightarrow> decimal_id s)"
  shows "next_id recs
           = Inr (py_str (max_default (map id_value (filter decimal_id (map id_text recs))) + 1))"
  using existing_ids_decimal[OF assms] by (simp add: next_id_def)

text \<open>
  Claim C4.  The next id is one more than the largest existing id that parses as a
  non-negative integer, ids that do not parse being ignored.  The program selects the
  ids with \<open>isdigit\<close> and converts them with \<open>int\<close>; the superscript two passes the
  first and fails the second.  A dataset holding the ids \<open>1\<close> and superscript two
  makes Add Record end in \<open>ValueError\<close>, where the claim gives the id \<open>2\<close>.
\<close>

theorem add_record_superscript_id_raises:
  "fst (add_record_flow no_faults (the_repo (demo_env (\<lambda>_. None))) (\<lambda>f. Some ''x'')
     (world_of [(demo_csv,
        writeheader FIELDNAMES @ writerow [''1'', ''a'', ''b'', ''c'', ''d'', ''e'', ''f'']
          @ writerow [[CHR 0xB2], ''a'', ''b'', ''c'', ''d'', ''e'', ''f''])]))
   = Some ValueError"
  by (simp add: csv_eval world_eval flow_eval)

section \<open>Exceptions that leave the main loop\<close>

text \<open>
  Claim C7.  No exception leaves the main loop, whatever the data layer is given.
  \<open>append\<close> catches \<open>OSError\<close> and \<open>csv.Error\<close> but not the \<open>ValueError\<close> that
  \<open>DictWriter\<close> raises on a key outside the schema, and neither \<open>import_from_json\<close>
  nor the loop has a handler: importing the array of the one object with the keys
  \<open>id\<close> and \<open>bogus\<close> ends the program with \<open>ValueError\<close>.
\<close>

theorem import_unknown_key_ends_main:
  \<open>fst (main
     (demo_env (\<lambda>_. Some (LArray [EDict [(Some ''id'', PStr ''9''), (Some ''bogus'', PStr ''x'')]])))
     no_faults [(no_faults, ImportJSON ''/home/user/in.json'')]
     (world_of [(''/home/user/in.json'', ''[{"id": "9", "bogus": "x"}]'')]))
   = Some ValueError\<close>
  by (simp add: csv_eval world_eval flow_eval)

text \<open>
  So do a payload that is no array (\<open>TypeError\<close>), an array element that is no
  object (\<open>AttributeError\<close>) and a skipped id that is no string (\<open>TypeError\<close>).
\<close>

lemma import_not_an_array_ends_main:
  "fst (main (demo_env (\<lambda>_. Some LScalar)) no_faults [(no_faults, ImportJSON ''/home/user/in.json'')]
          (world_of [(''/home/user/in.json'', ''5'')])) = Some TypeError"
  "fst (main (demo_env (\<lambda>_. Some (LArray [ENotDict]))) no_faults
          [(no_faults, ImportJSON ''/home/user/in.json'')]
          (world_of [(''/home/user/in.json'', ''[5]'')])) = Some AttributeError"
  "fst (main (demo_env (\<lambda>_. Some (LArray [EDict [(Some ''id'', POther False ''0'')]]))) no_faults
          [(no_faults, ImportJSON ''/home/user/in.json'')]
          (world_of [(''/home/user/in.json'', ''[{...}]'')])) = Some TypeError"
  by (simp_all add: csv_eval world_eval flow_eval)

end
